theory Spec2Isabelle
  imports Complex_Main
begin

section \<open>The Gaussian mixture model of colorHis.h\<close>

text \<open>
  The class keeps a flat parameter buffer \<open>model\<close> (an OpenCV matrix of one row) and three
  pointers into it: \<open>coefs\<close> (the component weights), \<open>mean\<close> and \<open>cov\<close>. Beside the
  buffer it owns the cache (\<open>inverseCovs\<close>, \<open>covDeterms\<close>) and the accumulators of a learning
  pass (\<open>sums\<close>, \<open>prods\<close>, \<open>sampleCounts\<close>, \<open>totalSampleCount\<close>). The header declares the
  class as \<open>ColorHistogram\<close> and defines its members as \<open>GMM::\<close>; the model takes the name of
  the definitions.

  Names. The two overloads of \<open>operator()\<close> are \<open>density\<close> (one component) and \<open>mixture\<close>
  (all of them). The member \<open>sums\<close> is the field \<open>sums_acc\<close>, the local \<open>max\<close> is \<open>mx\<close>, and
  an element \<open>color[k]\<close> is \<open>vec_at color k\<close>, since the short names are taken in HOL.

  Numbers. A C++ \<open>double\<close> is modelled as a real number: every operation is the exact one, so
  rounding, infinities and NaN are outside this development. The decimal literals of the source
  (\<open>1e-6\<close>, \<open>0.01\<close>) are the exact decimals, and \<open>numeric_limits<double>::epsilon()\<close> is
  2 to the power -52. The value a double computation stores can differ from the exact one: a
  variance can come out negative, a correction can be absorbed by a large entry, and an
  assertion on a determinant can then fail where the exact value would pass. For that reason
  the properties below are stated on the values the object holds (the stored covariance, the
  cached determinant, the densities) or under the hypothesis that a function has returned, and
  none of them says that an assertion on a determinant cannot fail.

  A C++ \<open>int\<close> is a mathematical integer; the one place where the source
  increments one (\<open>addSample\<close>) checks the range, since signed overflow is undefined behaviour.
  A component index is a natural number. The members that are arrays are functions of their
  indices; the two public members that index them with an argument of the caller (\<open>addSample\<close>
  and the density of one component) answer \<open>Undefined\<close> outside \<open>componentsCount\<close>, where C++
  defines nothing.

  Failure. \<open>CV_Error\<close> and \<open>CV_Assert\<close> throw; the model returns the error as a value.
\<close>

type_synonym double = real

datatype error = StsBadArg | StsAssert | Undefined

datatype Vec3d = Vec3d double double double

fun vec_at :: "Vec3d \<Rightarrow> nat \<Rightarrow> double" where
  "vec_at (Vec3d x y z) k = (if k = 0 then x else if k = 1 then y else z)"

definition componentsCount :: nat where
  "componentsCount = 5"

definition DBL_EPSILON :: double where
  "DBL_EPSILON = 1 / 2 ^ 52"

definition INT_MAX :: int where
  "INT_MAX = 2 ^ 31 - 1"

subsection \<open>The parameter buffer\<close>

text \<open>
  Modelled from the spec: the matrix type \<open>cv::Mat\<close> belongs to OpenCV and is not part of the
  repository. The model keeps what the constructor looks at: the element type, the number of rows
  and columns, and the elements (row-major, addressed from 0). A matrix is empty when it has no
  element.
\<close>

datatype elem_type = CV_64FC1 | CV_other nat

record Mat =
  mat_type :: elem_type
  mat_rows :: int
  mat_cols :: int
  mat_data :: "nat \<Rightarrow> double"

definition empty_mat :: "Mat \<Rightarrow> bool" where
  "empty_mat m \<longleftrightarrow> mat_rows m * mat_cols m = 0"

definition create_zero :: "int \<Rightarrow> int \<Rightarrow> elem_type \<Rightarrow> Mat" where
  \<comment> \<open>\<open>_model.create(rows, cols, type); _model.setTo(Scalar(0))\<close>\<close>
  "create_zero r c t = \<lparr>mat_type = t, mat_rows = r, mat_cols = c, mat_data = (\<lambda>_. 0)\<rparr>"

subsection \<open>The object\<close>

record GMM =
  model :: Mat
  inverseCovs :: "nat \<Rightarrow> nat \<Rightarrow> nat \<Rightarrow> double"
  covDeterms :: "nat \<Rightarrow> double"
  sums_acc :: "nat \<Rightarrow> nat \<Rightarrow> double"
  prods :: "nat \<Rightarrow> nat \<Rightarrow> nat \<Rightarrow> double"
  sampleCounts :: "nat \<Rightarrow> int"
  totalSampleCount :: int

text \<open>
  The three pointers are fixed by the constructor: \<open>coefs = model.ptr(0)\<close>,
  \<open>mean = coefs + componentsCount\<close>, \<open>cov = mean + 3 * componentsCount\<close>. Reading through a
  pointer is reading the buffer at its offset, and writing through it updates the buffer.
\<close>

definition coefs :: "GMM \<Rightarrow> nat \<Rightarrow> double" where
  "coefs s i = mat_data (model s) i"

definition mean :: "GMM \<Rightarrow> nat \<Rightarrow> double" where
  "mean s i = mat_data (model s) (componentsCount + i)"

definition cov :: "GMM \<Rightarrow> nat \<Rightarrow> double" where
  "cov s i = mat_data (model s) (componentsCount + 3 * componentsCount + i)"

definition poke :: "GMM \<Rightarrow> nat \<Rightarrow> double \<Rightarrow> GMM" where
  "poke s a v = s\<lparr>model := (model s)\<lparr>mat_data := (mat_data (model s))(a := v)\<rparr>\<rparr>"

definition set_coefs :: "GMM \<Rightarrow> nat \<Rightarrow> double \<Rightarrow> GMM" where
  "set_coefs s i v = poke s i v"

definition set_mean :: "GMM \<Rightarrow> nat \<Rightarrow> double \<Rightarrow> GMM" where
  "set_mean s i v = poke s (componentsCount + i) v"

definition set_cov :: "GMM \<Rightarrow> nat \<Rightarrow> double \<Rightarrow> GMM" where
  "set_cov s i v = poke s (componentsCount + 3 * componentsCount + i) v"

text \<open>Loops over the components, stopping at the first failure.\<close>

primrec for_each :: "nat list \<Rightarrow> ('s \<Rightarrow> nat \<Rightarrow> error + 's) \<Rightarrow> 's \<Rightarrow> error + 's" where
  "for_each [] f s = Inr s"
| "for_each (ci # rest) f s = (case f s ci of Inl e \<Rightarrow> Inl e | Inr s' \<Rightarrow> for_each rest f s')"

subsection \<open>calcInverseCovAndDeterm\<close>

definition determ :: "(nat \<Rightarrow> double) \<Rightarrow> double" where
  \<comment> \<open>the expression assigned to \<open>dtrm\<close>, over the nine entries \<open>c[0..8]\<close>\<close>
  "determ c = c 0 * (c 4 * c 8 - c 5 * c 7) - c 1 * (c 3 * c 8 - c 5 * c 6)
                + c 2 * (c 3 * c 7 - c 4 * c 6)"

definition cofactors :: "(nat \<Rightarrow> double) \<Rightarrow> double \<Rightarrow> nat \<Rightarrow> nat \<Rightarrow> double" where
  \<comment> \<open>the nine assignments to \<open>inverseCovs[ci][r][k]\<close>\<close>
  "cofactors c inv_dtrm r k =
     (if r = 0 \<and> k = 0 then (c 4 * c 8 - c 5 * c 7) * inv_dtrm
      else if r = 1 \<and> k = 0 then - (c 3 * c 8 - c 5 * c 6) * inv_dtrm
      else if r = 2 \<and> k = 0 then (c 3 * c 7 - c 4 * c 6) * inv_dtrm
      else if r = 0 \<and> k = 1 then - (c 1 * c 8 - c 2 * c 7) * inv_dtrm
      else if r = 1 \<and> k = 1 then (c 0 * c 8 - c 2 * c 6) * inv_dtrm
      else if r = 2 \<and> k = 1 then - (c 0 * c 7 - c 1 * c 6) * inv_dtrm
      else if r = 0 \<and> k = 2 then (c 1 * c 5 - c 2 * c 4) * inv_dtrm
      else if r = 1 \<and> k = 2 then - (c 0 * c 5 - c 2 * c 3) * inv_dtrm
      else (c 0 * c 4 - c 1 * c 3) * inv_dtrm)"

definition add_white_noise :: "GMM \<Rightarrow> nat \<Rightarrow> double \<Rightarrow> GMM" where
  \<comment> \<open>\<open>c[0] += singularFix; c[4] += singularFix; c[8] += singularFix\<close> with \<open>c = cov + 9 * ci\<close>\<close>
  "add_white_noise s ci singularFix =
     (let s1 = set_cov s (9 * ci + 0) (cov s (9 * ci + 0) + singularFix);
          s2 = set_cov s1 (9 * ci + 4) (cov s1 (9 * ci + 4) + singularFix)
      in set_cov s2 (9 * ci + 8) (cov s2 (9 * ci + 8) + singularFix))"

definition calcInverseCovAndDeterm :: "GMM \<Rightarrow> nat \<Rightarrow> double \<Rightarrow> error + GMM" where
  "calcInverseCovAndDeterm s ci singularFix =
     (if coefs s ci > 0 then
        let dtrm0 = determ (\<lambda>j. cov s (9 * ci + j));
            s1 = (if dtrm0 \<le> 1 / 10 ^ 6 \<and> singularFix > 0
                  then add_white_noise s ci singularFix else s);
            c = (\<lambda>j. cov s1 (9 * ci + j));
            dtrm = determ c;
            s2 = s1\<lparr>covDeterms := (covDeterms s1)(ci := dtrm)\<rparr>
        in if dtrm > DBL_EPSILON
           then Inr (s2\<lparr>inverseCovs := (inverseCovs s2)(ci := cofactors c (1 / dtrm))\<rparr>)
           else Inl StsAssert
      else Inr s)"

subsection \<open>The constructor\<close>

definition GMM_init :: "GMM \<Rightarrow> Mat \<Rightarrow> error + GMM" where
  \<comment> \<open>the constructor from \<open>model = _model\<close> on; \<open>s0\<close> holds the members not yet initialised\<close>
  "GMM_init s0 m =
     (case for_each [0..<componentsCount]
             (\<lambda>s ci. if coefs s ci > 0 then calcInverseCovAndDeterm s ci 0 else Inr s)
             (s0\<lparr>model := m\<rparr>) of
        Inl e \<Rightarrow> Inl e
      | Inr s \<Rightarrow> Inr (s\<lparr>totalSampleCount := 0\<rparr>))"

definition GMM_ctor :: "GMM \<Rightarrow> Mat \<Rightarrow> error + GMM" where
  "GMM_ctor s0 m =
     (let modelSize = 3 + 9 + 1 in
      if empty_mat m then GMM_init s0 (create_zero 1 (modelSize * int componentsCount) CV_64FC1)
      else if mat_type m \<noteq> CV_64FC1 \<or> mat_rows m \<noteq> 1
              \<or> mat_cols m \<noteq> modelSize * int componentsCount
      then Inl StsBadArg
      else GMM_init s0 m)"

subsection \<open>Densities\<close>

definition density :: "GMM \<Rightarrow> nat \<Rightarrow> Vec3d \<Rightarrow> error + double" where
  \<comment> \<open>\<open>operator()(int ci, const Vec3d color)\<close>; an index outside the arrays is undefined\<close>
  "density s ci color =
     (if componentsCount \<le> ci then Inl Undefined
      else if coefs s ci > 0 then
        (if covDeterms s ci > DBL_EPSILON then
           let m = (\<lambda>k. mean s (3 * ci + k));
               diff = Vec3d (vec_at color 0 - m 0) (vec_at color 1 - m 1) (vec_at color 2 - m 2);
               mult = vec_at diff 0 * (vec_at diff 0 * inverseCovs s ci 0 0 + vec_at diff 1 * inverseCovs s ci 1 0
                                    + vec_at diff 2 * inverseCovs s ci 2 0)
                    + vec_at diff 1 * (vec_at diff 0 * inverseCovs s ci 0 1 + vec_at diff 1 * inverseCovs s ci 1 1
                                    + vec_at diff 2 * inverseCovs s ci 2 1)
                    + vec_at diff 2 * (vec_at diff 0 * inverseCovs s ci 0 2 + vec_at diff 1 * inverseCovs s ci 1 2
                                    + vec_at diff 2 * inverseCovs s ci 2 2)
           in Inr (1 / sqrt (covDeterms s ci) * exp (- (1 / 2) * mult))
         else Inl StsAssert)
      else Inr 0)"

definition mixture :: "GMM \<Rightarrow> Vec3d \<Rightarrow> error + double" where
  \<comment> \<open>\<open>operator()(const Vec3d color)\<close>\<close>
  "mixture s color =
     for_each [0..<componentsCount]
       (\<lambda>res ci. case density s ci color of
                    Inl e \<Rightarrow> Inl e
                  | Inr p \<Rightarrow> Inr (res + coefs s ci * p))
       0"

definition whichComponent :: "GMM \<Rightarrow> Vec3d \<Rightarrow> error + nat" where
  "whichComponent s color =
     (case for_each [0..<componentsCount]
             (\<lambda>(k, mx) ci. case density s ci color of
                              Inl e \<Rightarrow> Inl e
                            | Inr p \<Rightarrow> Inr (if p > mx then (ci, p) else (k, mx)))
             (0, 0) of
        Inl e \<Rightarrow> Inl e
      | Inr (k, mx) \<Rightarrow> Inr k)"

subsection \<open>Learning\<close>

definition initLearning_body :: "GMM \<Rightarrow> nat \<Rightarrow> GMM" where
  "initLearning_body s ci =
     s\<lparr>sums_acc := (sums_acc s)(ci := (\<lambda>_. 0)),
       prods := (prods s)(ci := (\<lambda>_ _. 0)),
       sampleCounts := (sampleCounts s)(ci := 0)\<rparr>"

definition initLearning :: "GMM \<Rightarrow> GMM" where
  "initLearning s = (fold (\<lambda>ci s. initLearning_body s ci) [0..<componentsCount] s)
                      \<lparr>totalSampleCount := 0\<rparr>"

definition addSample :: "GMM \<Rightarrow> nat \<Rightarrow> Vec3d \<Rightarrow> error + GMM" where
  \<comment> \<open>an index outside the arrays and an increment past \<open>INT_MAX\<close> are undefined in C++\<close>
  "addSample s ci color =
     (if componentsCount \<le> ci \<or> sampleCounts s ci = INT_MAX \<or> totalSampleCount s = INT_MAX
      then Inl Undefined
      else Inr (s\<lparr>sums_acc := (sums_acc s)(ci := (\<lambda>k. sums_acc s ci k + vec_at color k)),
                  prods := (prods s)(ci := (\<lambda>r k. prods s ci r k + vec_at color r * vec_at color k)),
                  sampleCounts := (sampleCounts s)(ci := sampleCounts s ci + 1),
                  totalSampleCount := totalSampleCount s + 1\<rparr>))"

definition set_cov_entry :: "GMM \<Rightarrow> nat \<Rightarrow> double \<Rightarrow> nat \<Rightarrow> nat \<Rightarrow> GMM" where
  \<comment> \<open>\<open>c[3 * r + k] = prods[ci][r][k] * inv_n - m[r] * m[k]\<close> with \<open>m = mean + 3 * ci\<close> and
      \<open>c = cov + 9 * ci\<close>\<close>
  "set_cov_entry s ci inv_n r k =
     set_cov s (9 * ci + (3 * r + k))
       (prods s ci r k * inv_n - mean s (3 * ci + r) * mean s (3 * ci + k))"

definition fit_component :: "GMM \<Rightarrow> nat \<Rightarrow> GMM" where
  \<comment> \<open>the assignments of the \<open>else\<close> branch, up to the call of \<open>calcInverseCovAndDeterm\<close>\<close>
  "fit_component s ci =
     (let n = sampleCounts s ci;
          inv_n = 1 / real_of_int n;
          s1 = set_coefs s ci (real_of_int n / real_of_int (totalSampleCount s));
          s2 = set_mean s1 (3 * ci + 0) (sums_acc s1 ci 0 * inv_n);
          s3 = set_mean s2 (3 * ci + 1) (sums_acc s2 ci 1 * inv_n);
          s4 = set_mean s3 (3 * ci + 2) (sums_acc s3 ci 2 * inv_n);
          c0 = set_cov_entry s4 ci inv_n 0 0;
          c1 = set_cov_entry c0 ci inv_n 0 1;
          c2 = set_cov_entry c1 ci inv_n 0 2;
          c3 = set_cov_entry c2 ci inv_n 1 0;
          c4 = set_cov_entry c3 ci inv_n 1 1;
          c5 = set_cov_entry c4 ci inv_n 1 2;
          c6 = set_cov_entry c5 ci inv_n 2 0;
          c7 = set_cov_entry c6 ci inv_n 2 1
      in set_cov_entry c7 ci inv_n 2 2)"

definition endLearning_body :: "GMM \<Rightarrow> nat \<Rightarrow> error + GMM" where
  "endLearning_body s ci =
     (let n = sampleCounts s ci in
      if n = 0 then Inr (set_coefs s ci 0)
      else if totalSampleCount s > 0 then calcInverseCovAndDeterm (fit_component s ci) ci (1 / 100)
      else Inl StsAssert)"

definition endLearning :: "GMM \<Rightarrow> error + GMM" where
  "endLearning s = for_each [0..<componentsCount] endLearning_body s"

section \<open>Vocabulary of the statements\<close>

text \<open>
  Nothing below is code of the class. These definitions are the words in which the properties
  are stated (the quadratic form of the density, the invariant of the counters, the mean and
  the covariance the accumulators of a component give), a driver that feeds a list of samples,
  and a few concrete objects on which the theorems are exercised.
\<close>

subsection \<open>Densities\<close>

definition mahalanobis :: "(nat \<Rightarrow> double) \<Rightarrow> (nat \<Rightarrow> double) \<Rightarrow> (nat \<Rightarrow> nat \<Rightarrow> double) \<Rightarrow> double" where
  \<comment> \<open>the quadratic form \<open>(x - \<mu>)\<^sup>T A (x - \<mu>)\<close> in three dimensions\<close>
  "mahalanobis x mu A = (\<Sum>r<3. \<Sum>k<3. (x r - mu r) * A r k * (x k - mu k))"

definition scan_body :: "(nat \<Rightarrow> error + double) \<Rightarrow> nat \<times> double \<Rightarrow> nat \<Rightarrow> error + nat \<times> double" where
  \<comment> \<open>one round of the loop of \<open>whichComponent\<close>, over any table of densities\<close>
  "scan_body dn = (\<lambda>(k, mx) ci. case dn ci of
                                     Inl e \<Rightarrow> Inl e
                                   | Inr p \<Rightarrow> Inr (if p > mx then (ci, p) else (k, mx)))"

subsection \<open>A learning pass\<close>

definition acc_inv :: "GMM \<Rightarrow> bool" where
  \<comment> \<open>the total count is the sum of the counts, and no count is negative\<close>
  "acc_inv s \<longleftrightarrow> totalSampleCount s = (\<Sum>i<componentsCount. sampleCounts s i)
                 \<and> (\<forall>i<componentsCount. 0 \<le> sampleCounts s i)"

primrec addSamples :: "GMM \<Rightarrow> (nat \<times> Vec3d) list \<Rightarrow> error + GMM" where
  \<comment> \<open>the caller's loop: one \<open>addSample\<close> for each pair of a component and a colour\<close>
  "addSamples s [] = Inr s"
| "addSamples s (p # ps) = (case addSample s (fst p) (snd p) of
                              Inl e \<Rightarrow> Inl e
                            | Inr s' \<Rightarrow> addSamples s' ps)"

definition sample_mean :: "GMM \<Rightarrow> nat \<Rightarrow> nat \<Rightarrow> double" where
  \<comment> \<open>\<open>sumOfSamples / sampleCount\<close>\<close>
  "sample_mean s ci k = sums_acc s ci k / real_of_int (sampleCounts s ci)"

definition sample_cov :: "GMM \<Rightarrow> nat \<Rightarrow> nat \<Rightarrow> double" where
  \<comment> \<open>\<open>sumOfOuterProducts[r][c] / sampleCount - mean[r] * mean[c]\<close> at position \<open>3 * r + c\<close>\<close>
  "sample_cov s ci j = prods s ci (j div 3) (j mod 3) / real_of_int (sampleCounts s ci)
                         - sample_mean s ci (j div 3) * sample_mean s ci (j mod 3)"

subsection \<open>Matrices of three rows and columns, stored row by row\<close>

definition regularized :: "(nat \<Rightarrow> double) \<Rightarrow> double \<Rightarrow> nat \<Rightarrow> double" where
  \<comment> \<open>\<open>e\<close> added to each diagonal entry\<close>
  "regularized c e j = (if j = 0 \<or> j = 4 \<or> j = 8 then c j + e else c j)"

definition calc_twice :: "GMM \<Rightarrow> nat \<Rightarrow> double \<Rightarrow> error + GMM" where
  \<comment> \<open>two calls in succession, with the same arguments\<close>
  "calc_twice s ci e = (case calcInverseCovAndDeterm s ci e of
                          Inl x \<Rightarrow> Inl x
                        | Inr s1 \<Rightarrow> calcInverseCovAndDeterm s1 ci e)"

subsection \<open>What one round of a loop leaves alone\<close>

definition same_acc :: "GMM \<Rightarrow> GMM \<Rightarrow> bool" where
  "same_acc s s' \<longleftrightarrow> sums_acc s' = sums_acc s \<and> prods s' = prods s
                     \<and> sampleCounts s' = sampleCounts s \<and> totalSampleCount s' = totalSampleCount s"

definition same_comp :: "GMM \<Rightarrow> GMM \<Rightarrow> nat \<Rightarrow> bool" where
  "same_comp s s' i \<longleftrightarrow> coefs s' i = coefs s i \<and> (\<forall>k<3. mean s' (3 * i + k) = mean s (3 * i + k))
                        \<and> (\<forall>j<9. cov s' (9 * i + j) = cov s (9 * i + j))
                        \<and> covDeterms s' i = covDeterms s i \<and> inverseCovs s' i = inverseCovs s i"

definition fitted :: "GMM \<Rightarrow> GMM \<Rightarrow> nat \<Rightarrow> bool" where
  \<comment> \<open>component \<open>ci\<close> of \<open>s'\<close> is fitted to the accumulators of \<open>s\<close>\<close>
  "fitted s s' ci \<longleftrightarrow>
     (sampleCounts s ci = 0 \<longrightarrow> coefs s' ci = 0)
     \<and> (0 < sampleCounts s ci \<longrightarrow>
          0 < totalSampleCount s
          \<and> coefs s' ci = real_of_int (sampleCounts s ci) / real_of_int (totalSampleCount s)
          \<and> (\<forall>k<3. mean s' (3 * ci + k) = sample_mean s ci k)
          \<and> (\<forall>j<9. cov s' (9 * ci + j)
                 = (if determ (sample_cov s ci) \<le> 1 / 10 ^ 6
                    then regularized (sample_cov s ci) (1 / 100) j else sample_cov s ci j))
          \<and> covDeterms s' ci = determ (\<lambda>j. cov s' (9 * ci + j))
          \<and> DBL_EPSILON < covDeterms s' ci
          \<and> inverseCovs s' ci = cofactors (\<lambda>j. cov s' (9 * ci + j)) (1 / covDeterms s' ci))"

definition ctor_dets :: "Mat \<Rightarrow> GMM \<Rightarrow> nat \<Rightarrow> nat \<Rightarrow> double" where
  \<comment> \<open>the determinants cached once the constructor has seen the components below \<open>n\<close>\<close>
  "ctor_dets m s0 n ci = (if ci < n \<and> 0 < mat_data m ci
                           then determ (\<lambda>j. mat_data m (20 + 9 * ci + j))
                           else covDeterms s0 ci)"

definition ctor_invs :: "Mat \<Rightarrow> GMM \<Rightarrow> nat \<Rightarrow> nat \<Rightarrow> nat \<Rightarrow> nat \<Rightarrow> double" where
  "ctor_invs m s0 n ci = (if ci < n \<and> 0 < mat_data m ci
                           then cofactors (\<lambda>j. mat_data m (20 + 9 * ci + j))
                                  (1 / determ (\<lambda>j. mat_data m (20 + 9 * ci + j)))
                           else inverseCovs s0 ci)"

definition ctor_cache :: "Mat \<Rightarrow> GMM \<Rightarrow> nat \<Rightarrow> GMM" where
  "ctor_cache m s0 n = s0\<lparr>model := m, inverseCovs := ctor_invs m s0 n, covDeterms := ctor_dets m s0 n\<rparr>"

subsection \<open>Concrete objects\<close>

definition unit_model :: Mat where
  \<comment> \<open>component 0 has weight 1, mean 0 and the identity as covariance; the others have weight 0\<close>
  "unit_model = \<lparr>mat_type = CV_64FC1, mat_rows = 1, mat_cols = 65,
                  mat_data = (\<lambda>i. if i = 0 \<or> i = 20 \<or> i = 24 \<or> i = 28 then 1 else 0)\<rparr>"

definition unit_gmm :: GMM where
  "unit_gmm = \<lparr>model = unit_model,
                inverseCovs = (\<lambda>ci r k. if r = k then 1 else 0),
                covDeterms = (\<lambda>ci. 1),
                sums_acc = (\<lambda>ci k. 0),
                prods = (\<lambda>ci r k. 0),
                sampleCounts = (\<lambda>ci. 0),
                totalSampleCount = 0\<rparr>"

definition flat_gmm :: GMM where
  \<comment> \<open>component 0 active, its covariance all zero (every sample had the same colour)\<close>
  "flat_gmm = unit_gmm\<lparr>model := unit_model\<lparr>mat_data := (\<lambda>i. if i = 0 then 1 else 0)\<rparr>\<rparr>"

definition raw_gmm :: GMM where
  \<comment> \<open>an object before its constructor has run\<close>
  "raw_gmm = \<lparr>model = create_zero 0 0 (CV_other 0),
               inverseCovs = (\<lambda>ci r k. 0), covDeterms = (\<lambda>ci. 0),
               sums_acc = (\<lambda>ci k. 0), prods = (\<lambda>ci r k. 0),
               sampleCounts = (\<lambda>ci. 0), totalSampleCount = 7\<rparr>"

definition empty_buffer :: Mat where
  "empty_buffer = \<lparr>mat_type = CV_other 0, mat_rows = 0, mat_cols = 0, mat_data = (\<lambda>i. 0)\<rparr>"


definition two_samples :: "(nat \<times> Vec3d) list" where
  \<comment> \<open>the same colour twice, to component 2\<close>
  "two_samples = [(2, Vec3d 100 100 100), (2, Vec3d 100 100 100)]"

section \<open>Properties\<close>

subsection \<open>Loops, indices and small facts\<close>

lemma sum_lessThan_3: "(\<Sum>i<(3::nat). f i) = f 0 + f 1 + (f 2 :: real)"
  by (simp add: eval_nat_numeral)

lemma vec_at_simps [simp]:
  "vec_at (Vec3d x y z) 0 = x" "vec_at (Vec3d x y z) 1 = y" "vec_at (Vec3d x y z) 2 = z"
  by simp_all

lemma DBL_EPSILON_pos: "0 < DBL_EPSILON"
  by (simp add: DBL_EPSILON_def)

lemma for_each_append:
  "for_each (xs @ ys) f s = (case for_each xs f s of Inl e \<Rightarrow> Inl e | Inr s' \<Rightarrow> for_each ys f s')"
  by (induction xs arbitrary: s) (auto split: sum.splits)

lemma for_each_fails:
  assumes "x \<in> set xs" "\<And>s. f s x = Inl E" "\<And>s y e. y \<in> set xs \<Longrightarrow> f s y = Inl e \<Longrightarrow> e = E"
  shows "for_each xs f s = Inl E"
  using assms
proof (induction xs arbitrary: s)
  case Nil
  then show ?case by simp
next
  case (Cons a xs)
  show ?case
  proof (cases "f s a")
    case (Inl e)
    then have "e = E" using Cons.prems(3) [of a s e] by simp
    then show ?thesis using Inl by simp
  next
    case (Inr s')
    then have "a \<noteq> x" using Cons.prems(2) [of s] by auto
    then have "x \<in> set xs" using Cons.prems(1) by simp
    then have "for_each xs f s' = Inl E"
    proof (rule Cons.IH)
      show "f s x = Inl E" for s by (rule Cons.prems(2))
      show "e = E" if "y \<in> set xs" "f s y = Inl e" for s y e
        using Cons.prems(3) [of y s e] that by simp
    qed
    then show ?thesis using Inr by simp
  qed
qed

lemma block_index_outside:
  fixes i ci j m :: nat
  assumes "i \<noteq> ci" "j < m"
  shows "m * i + j < m * ci \<or> m * ci + m \<le> m * i + j"
proof (cases "i < ci")
  case True
  then have "m * Suc i \<le> m * ci" by (intro mult_le_mono2) simp
  then show ?thesis using assms(2) by simp
next
  case False
  then have "m * Suc ci \<le> m * i" using assms(1) by (intro mult_le_mono2) simp
  then show ?thesis by simp
qed

lemma block_index_neq:
  fixes i ci j j' m :: nat
  assumes "i \<noteq> ci" "j < m" "j' < m"
  shows "m * i + j \<noteq> m * ci + j'"
  using block_index_outside [OF assms(1,2)] assms(3) by linarith

subsection \<open>The buffer and its three views\<close>

text \<open>
  A write through one pointer changes nothing that is read through another one, as long as
  the indices stay inside the ranges the layout gives them: 5 weights, 15 mean coordinates,
  45 covariance entries.
\<close>

lemma poke_fields [simp]:
  "inverseCovs (poke s a v) = inverseCovs s"
  "covDeterms (poke s a v) = covDeterms s"
  "sums_acc (poke s a v) = sums_acc s"
  "prods (poke s a v) = prods s"
  "sampleCounts (poke s a v) = sampleCounts s"
  "totalSampleCount (poke s a v) = totalSampleCount s"
  "mat_type (model (poke s a v)) = mat_type (model s)"
  "mat_rows (model (poke s a v)) = mat_rows (model s)"
  "mat_cols (model (poke s a v)) = mat_cols (model s)"
  "mat_data (model (poke s a v)) = (mat_data (model s))(a := v)"
  by (simp_all add: poke_def)

lemma set_cov_fields [simp]:
  "inverseCovs (set_cov s a v) = inverseCovs s"
  "covDeterms (set_cov s a v) = covDeterms s"
  "sums_acc (set_cov s a v) = sums_acc s"
  "prods (set_cov s a v) = prods s"
  "sampleCounts (set_cov s a v) = sampleCounts s"
  "totalSampleCount (set_cov s a v) = totalSampleCount s"
  "mat_type (model (set_cov s a v)) = mat_type (model s)"
  "mat_rows (model (set_cov s a v)) = mat_rows (model s)"
  "mat_cols (model (set_cov s a v)) = mat_cols (model s)"
  by (simp_all add: set_cov_def)

lemma set_mean_fields [simp]:
  "inverseCovs (set_mean s a v) = inverseCovs s"
  "covDeterms (set_mean s a v) = covDeterms s"
  "sums_acc (set_mean s a v) = sums_acc s"
  "prods (set_mean s a v) = prods s"
  "sampleCounts (set_mean s a v) = sampleCounts s"
  "totalSampleCount (set_mean s a v) = totalSampleCount s"
  "mat_type (model (set_mean s a v)) = mat_type (model s)"
  "mat_rows (model (set_mean s a v)) = mat_rows (model s)"
  "mat_cols (model (set_mean s a v)) = mat_cols (model s)"
  by (simp_all add: set_mean_def)

lemma set_coefs_fields [simp]:
  "inverseCovs (set_coefs s a v) = inverseCovs s"
  "covDeterms (set_coefs s a v) = covDeterms s"
  "sums_acc (set_coefs s a v) = sums_acc s"
  "prods (set_coefs s a v) = prods s"
  "sampleCounts (set_coefs s a v) = sampleCounts s"
  "totalSampleCount (set_coefs s a v) = totalSampleCount s"
  "mat_type (model (set_coefs s a v)) = mat_type (model s)"
  "mat_rows (model (set_coefs s a v)) = mat_rows (model s)"
  "mat_cols (model (set_coefs s a v)) = mat_cols (model s)"
  by (simp_all add: set_coefs_def)

lemma views_set_cov [simp]:
  "cov (set_cov s a v) b = (if b = a then v else cov s b)"
  "i < 3 * componentsCount \<Longrightarrow> mean (set_cov s a v) i = mean s i"
  "i < componentsCount \<Longrightarrow> coefs (set_cov s a v) i = coefs s i"
  by (simp_all add: cov_def mean_def coefs_def set_cov_def componentsCount_def)

lemma views_set_mean [simp]:
  "a < 3 * componentsCount \<Longrightarrow> cov (set_mean s a v) b = cov s b"
  "mean (set_mean s a v) i = (if i = a then v else mean s i)"
  "i < componentsCount \<Longrightarrow> coefs (set_mean s a v) i = coefs s i"
  by (simp_all add: cov_def mean_def coefs_def set_mean_def componentsCount_def)

lemma views_set_coefs [simp]:
  "a < componentsCount \<Longrightarrow> cov (set_coefs s a v) b = cov s b"
  "a < componentsCount \<Longrightarrow> mean (set_coefs s a v) i = mean s i"
  "coefs (set_coefs s a v) i = (if i = a then v else coefs s i)"
  by (simp_all add: cov_def mean_def coefs_def set_coefs_def componentsCount_def)

lemma views_cache_upd [simp]:
  "cov (s\<lparr>covDeterms := d\<rparr>) = cov s" "mean (s\<lparr>covDeterms := d\<rparr>) = mean s"
  "coefs (s\<lparr>covDeterms := d\<rparr>) = coefs s"
  "cov (s\<lparr>inverseCovs := iv\<rparr>) = cov s" "mean (s\<lparr>inverseCovs := iv\<rparr>) = mean s"
  "coefs (s\<lparr>inverseCovs := iv\<rparr>) = coefs s"
  "cov (s\<lparr>totalSampleCount := t\<rparr>) = cov s" "mean (s\<lparr>totalSampleCount := t\<rparr>) = mean s"
  "coefs (s\<lparr>totalSampleCount := t\<rparr>) = coefs s"
  by (simp_all add: cov_def mean_def coefs_def fun_eq_iff)

lemma unit_gmm_simps:
  "coefs unit_gmm i = (if i = 0 then 1 else 0)" if "i < componentsCount"
  using that by (simp add: coefs_def unit_gmm_def unit_model_def componentsCount_def)

lemma unit_gmm_cov: "cov unit_gmm j = (if j = 0 \<or> j = 4 \<or> j = 8 then 1 else 0)"
  by (simp add: cov_def unit_gmm_def unit_model_def componentsCount_def)

lemma flat_gmm_views:
  "coefs flat_gmm 0 = 1" "cov flat_gmm j = 0"
  by (simp_all add: flat_gmm_def unit_gmm_def unit_model_def coefs_def cov_def componentsCount_def)

subsection \<open>The density of one component\<close>

lemma density_eq:
  "density s ci color =
     (if componentsCount \<le> ci then Inl Undefined
      else if 0 < coefs s ci then
        (if DBL_EPSILON < covDeterms s ci
         then Inr (exp (- (1 / 2) * mahalanobis (vec_at color) (\<lambda>k. mean s (3 * ci + k)) (inverseCovs s ci))
                    / sqrt (covDeterms s ci))
         else Inl StsAssert)
      else Inr 0)"
proof -
  have "vec_at (Vec3d a b c) 0 * (vec_at (Vec3d a b c) 0 * i00 + vec_at (Vec3d a b c) 1 * i10 + vec_at (Vec3d a b c) 2 * i20)
      + vec_at (Vec3d a b c) 1 * (vec_at (Vec3d a b c) 0 * i01 + vec_at (Vec3d a b c) 1 * i11 + vec_at (Vec3d a b c) 2 * i21)
      + vec_at (Vec3d a b c) 2 * (vec_at (Vec3d a b c) 0 * i02 + vec_at (Vec3d a b c) 1 * i12 + vec_at (Vec3d a b c) 2 * i22)
      = a * i00 * a + a * i01 * b + a * i02 * c + (b * i10 * a + b * i11 * b + b * i12 * c)
        + (c * i20 * a + c * i21 * b + c * i22 * c)"
    for a b c i00 i01 i02 i10 i11 i12 i20 i21 i22 :: real
    unfolding vec_at_simps by (simp add: algebra_simps)
  then show ?thesis
    unfolding density_def mahalanobis_def sum_lessThan_3 Let_def
    by (simp del: vec_at.simps)
qed

lemma density_error:
  "ci < componentsCount \<Longrightarrow> density s ci color = Inl e \<Longrightarrow> e = StsAssert"
  by (auto simp: density_eq split: if_splits)

lemma density_nonneg: "density s ci color = Inr d \<Longrightarrow> 0 \<le> d"
proof -
  have "0 \<le> exp x / sqrt y" if "DBL_EPSILON < y" for x y :: real
    using that DBL_EPSILON_pos by (intro divide_nonneg_nonneg) auto
  then show "density s ci color = Inr d \<Longrightarrow> 0 \<le> d"
    by (auto simp: density_eq split: if_splits)
qed

lemma density_total:
  "ci < componentsCount \<Longrightarrow> (0 < coefs s ci \<longrightarrow> DBL_EPSILON < covDeterms s ci) \<Longrightarrow>
     \<exists>d. density s ci color = Inr d"
  by (auto simp: density_eq)

lemma unit_gmm_density:
  "i < componentsCount \<Longrightarrow> density unit_gmm i (Vec3d 0 0 0) = Inr (if i = 0 then 1 else 0)"
  by (simp add: density_eq unit_gmm_simps)
     (simp add: unit_gmm_def unit_model_def mean_def componentsCount_def mahalanobis_def
        sum_lessThan_3 DBL_EPSILON_def)

text \<open>
  Claim C3. The weights of a model are not negative. For every component index in range and
  every colour, the component density is 0 when the weight of the component is zero. Otherwise,
  when the cached determinant exceeds the machine epsilon, it is
  \<open>exp (- Q / 2) / sqrt (determinant)\<close>, where \<open>Q\<close> is the Mahalanobis form of the colour
  with the mean and the cached inverse covariance, without any power of \<open>2 \<pi>\<close>; and when the
  determinant does not exceed the machine epsilon, the assertion fails.
\<close>

theorem density_formula:
  assumes "ci < componentsCount" "0 \<le> coefs s ci"
  shows "density s ci color =
     (if coefs s ci = 0 then Inr 0
      else if DBL_EPSILON < covDeterms s ci
      then Inr (exp (- (1 / 2) * mahalanobis (vec_at color) (\<lambda>k. mean s (3 * ci + k)) (inverseCovs s ci))
                 / sqrt (covDeterms s ci))
      else Inl StsAssert)"
  using assms by (auto simp: density_eq)

text \<open>
  On the unit model (one active component of weight 1, mean 0 and identity covariance) the
  colour \<open>(1, 0, 0)\<close> has \<open>Q = 1\<close> for component 0; component 1 has weight 0.
\<close>

theorem density_formula_witness:
  "density unit_gmm 0 (Vec3d 1 0 0) = Inr (exp (- (1 / 2)))
   \<and> density unit_gmm 1 (Vec3d 1 0 0) = Inr 0"
proof -
  have c: "(0::nat) < componentsCount" "(1::nat) < componentsCount"
    by (simp_all add: componentsCount_def)
  have w: "coefs unit_gmm 0 = 1" "coefs unit_gmm 1 = 0"
    by (simp_all add: unit_gmm_def unit_model_def coefs_def)
  have "density unit_gmm 0 (Vec3d 1 0 0) = Inr (exp (- (1 / 2)))"
    using density_formula [of 0 unit_gmm "Vec3d 1 0 0"] c(1) w(1)
    by (simp add: unit_gmm_def unit_model_def mean_def componentsCount_def
        DBL_EPSILON_def mahalanobis_def sum_lessThan_3)
  moreover have "density unit_gmm 1 (Vec3d 1 0 0) = Inr 0"
    using density_formula [of 1 unit_gmm "Vec3d 1 0 0"] c(2) w(2) by simp
  ultimately show ?thesis by (rule conjI)
qed

text \<open>
  Claim C9. For a component index in range, under the precondition that an active component has
  a cached determinant above the machine epsilon, the component density is defined and is not
  negative.
\<close>

theorem density_nonnegative:
  assumes "ci < componentsCount" "0 < coefs s ci \<longrightarrow> DBL_EPSILON < covDeterms s ci"
  shows "\<exists>d. density s ci color = Inr d \<and> 0 \<le> d"
  using density_total [OF assms] density_nonneg by blast

theorem density_nonnegative_witness:
  "\<exists>d. density unit_gmm 0 (Vec3d 3 4 5) = Inr d \<and> 0 \<le> d"
  by (rule density_nonnegative)
     (simp_all add: componentsCount_def unit_gmm_def DBL_EPSILON_def)

subsection \<open>The most likely component\<close>

lemma scan_inv:
  assumes "\<forall>i<n. dn i = Inr (d i)"
  shows "\<exists>k mx. for_each [0..<n] (scan_body dn) (0, 0) = Inr (k, mx)
           \<and> ((k = 0 \<and> mx = 0 \<and> (\<forall>i<n. d i \<le> 0))
              \<or> (k < n \<and> mx = d k \<and> 0 < mx \<and> (\<forall>i<n. d i \<le> mx) \<and> (\<forall>i<k. d i < mx)))"
  using assms
proof (induction n)
  case 0
  then show ?case by simp
next
  case (Suc n)
  then obtain k mx where run: "for_each [0..<n] (scan_body dn) (0, 0) = Inr (k, mx)"
    and inv: "(k = 0 \<and> mx = 0 \<and> (\<forall>i<n. d i \<le> 0))
              \<or> (k < n \<and> mx = d k \<and> 0 < mx \<and> (\<forall>i<n. d i \<le> mx) \<and> (\<forall>i<k. d i < mx))"
    by auto
  have dn: "dn n = Inr (d n)" using Suc.prems by simp
  show ?case
  proof (cases "mx < d n")
    case True
    then have "for_each [0..<Suc n] (scan_body dn) (0, 0) = Inr (n, d n)"
      using run dn by (simp add: for_each_append scan_body_def)
    moreover have "0 < d n" using True inv by auto
    moreover have "\<forall>i<Suc n. d i \<le> d n" using True inv by (auto simp: less_Suc_eq)
    moreover have "\<forall>i<n. d i < d n" using True inv by force
    ultimately show ?thesis by auto
  next
    case False
    then have "for_each [0..<Suc n] (scan_body dn) (0, 0) = Inr (k, mx)"
      using run dn by (simp add: for_each_append scan_body_def)
    moreover have "(k = 0 \<and> mx = 0 \<and> (\<forall>i<Suc n. d i \<le> 0))
              \<or> (k < Suc n \<and> mx = d k \<and> 0 < mx \<and> (\<forall>i<Suc n. d i \<le> mx) \<and> (\<forall>i<k. d i < mx))"
      using False inv by (auto simp: less_Suc_eq)
    ultimately show ?thesis by blast
  qed
qed

lemma whichComponent_scan:
  "whichComponent s color =
     (case for_each [0..<componentsCount] (scan_body (\<lambda>ci. density s ci color)) (0, 0) of
        Inl e \<Rightarrow> Inl e | Inr (k, mx) \<Rightarrow> Inr k)"
  by (simp add: whichComponent_def scan_body_def)

lemma whichComponent_least:
  assumes "\<forall>i<componentsCount. density s i color = Inr (d i)"
  shows "\<exists>k<componentsCount. whichComponent s color = Inr k
           \<and> (\<forall>i<componentsCount. d i \<le> d k) \<and> (\<forall>i<k. d i < d k)
           \<and> ((\<forall>i<componentsCount. d i \<le> 0) \<longrightarrow> k = 0)
           \<and> (k \<noteq> 0 \<longrightarrow> 0 < d k)"
proof -
  have nonneg: "\<forall>i<componentsCount. 0 \<le> d i"
    using assms density_nonneg by blast
  obtain k mx where run: "for_each [0..<componentsCount] (scan_body (\<lambda>ci. density s ci color)) (0, 0) = Inr (k, mx)"
    and inv: "(k = 0 \<and> mx = 0 \<and> (\<forall>i<componentsCount. d i \<le> 0))
              \<or> (k < componentsCount \<and> mx = d k \<and> 0 < mx \<and> (\<forall>i<componentsCount. d i \<le> mx) \<and> (\<forall>i<k. d i < mx))"
    using scan_inv [OF assms] by blast
  have res: "whichComponent s color = Inr k"
    using run by (simp add: whichComponent_scan)
  from inv show ?thesis
  proof
    assume z: "k = 0 \<and> mx = 0 \<and> (\<forall>i<componentsCount. d i \<le> 0)"
    then have "\<forall>i<componentsCount. d i = 0" using nonneg by force
    then show ?thesis using z res by (auto simp: componentsCount_def)
  next
    assume p: "k < componentsCount \<and> mx = d k \<and> 0 < mx \<and> (\<forall>i<componentsCount. d i \<le> mx) \<and> (\<forall>i<k. d i < mx)"
    then have "\<not> (\<forall>i<componentsCount. d i \<le> 0)" by force
    then show ?thesis using p res by auto
  qed
qed

lemma whichComponent_fails:
  assumes "i < componentsCount" "density s i color = Inl e"
  shows "whichComponent s color = Inl StsAssert"
proof -
  have e: "e = StsAssert" using assms by (rule density_error)
  have "for_each [0..<componentsCount] (scan_body (\<lambda>ci. density s ci color)) (0, 0) = Inl StsAssert"
  proof (rule for_each_fails [where x = i])
    show "i \<in> set [0..<componentsCount]" using assms(1) by simp
    show "scan_body (\<lambda>ci. density s ci color) st i = Inl StsAssert" for st
      using assms(2) e by (simp add: scan_body_def split: prod.splits)
    show "e' = StsAssert"
      if "y \<in> set [0..<componentsCount]" "scan_body (\<lambda>ci. density s ci color) st y = Inl e'"
      for st y e'
      using that density_error [of y s color]
      by (auto simp: scan_body_def split: prod.splits sum.splits)
  qed
  then show ?thesis by (simp add: whichComponent_scan)
qed

text \<open>
  Claim C4. When the five densities are defined, \<open>whichComponent\<close> returns an index whose
  density is maximal, and the least such index: every component scanned before it has a
  strictly smaller density. It returns 0 when no density is strictly positive, and an index
  other than 0 only for a strictly positive density. When the assertion of some component
  fails, so does the scan.
\<close>

theorem whichComponent_argmax:
  "((\<forall>i<componentsCount. density s i color = Inr (d i)) \<longrightarrow>
      (\<exists>k<componentsCount. whichComponent s color = Inr k
           \<and> (\<forall>i<componentsCount. d i \<le> d k) \<and> (\<forall>i<k. d i < d k)
           \<and> ((\<forall>i<componentsCount. d i \<le> 0) \<longrightarrow> k = 0)
           \<and> (k \<noteq> 0 \<longrightarrow> 0 < d k)))
   \<and> ((\<exists>i<componentsCount. \<exists>e. density s i color = Inl e) \<longrightarrow>
        whichComponent s color = Inl StsAssert)"
  using whichComponent_least [of s color d] whichComponent_fails [of _ s color] by blast

theorem whichComponent_argmax_witness:
  "whichComponent unit_gmm (Vec3d 0 0 0) = Inr 0"
proof -
  have h: "\<forall>i<componentsCount. density unit_gmm i (Vec3d 0 0 0) = Inr (if i = 0 then 1 else 0)"
    by (simp add: unit_gmm_density)
  obtain k where k: "k < componentsCount" "whichComponent unit_gmm (Vec3d 0 0 0) = Inr k"
      "\<forall>i<componentsCount. (if i = 0 then 1 else 0 :: real) \<le> (if k = 0 then 1 else 0)"
    using whichComponent_argmax [of unit_gmm "Vec3d 0 0 0" "\<lambda>i. if i = 0 then 1 else 0"] h by blast
  have "0 < componentsCount" by (simp add: componentsCount_def)
  with k(3) [rule_format, of 0] have "(1::real) \<le> (if k = 0 then 1 else 0)" by simp
  then have "k = 0" by (simp split: if_splits)
  with k(2) show ?thesis by simp
qed

subsection \<open>The density of the mixture\<close>

lemma mixture_loop:
  assumes "\<forall>i<n. dn i = Inr (d i)"
  shows "for_each [0..<n] (\<lambda>res ci. case dn ci of Inl e \<Rightarrow> Inl e | Inr p \<Rightarrow> Inr (res + w ci * p)) r0
           = Inr (r0 + (\<Sum>i<n. w i * d i))"
  using assms by (induction n) (simp_all add: for_each_append add.assoc)

lemma mixture_sum:
  assumes "\<forall>i<componentsCount. density s i color = Inr (d i)"
  shows "mixture s color = Inr (\<Sum>i<componentsCount. coefs s i * d i)
         \<and> (\<forall>i<componentsCount. coefs s i = 0 \<longrightarrow> d i = 0 \<and> coefs s i * d i = 0)"
proof -
  have "mixture s color = Inr (0 + (\<Sum>i<componentsCount. coefs s i * d i))"
    unfolding mixture_def by (rule mixture_loop [OF assms])
  moreover have "d i = 0" if "i < componentsCount" "coefs s i = 0" for i
  proof -
    have "density s i color = Inr 0" using that by (simp add: density_eq)
    then show ?thesis using assms that by simp
  qed
  ultimately show ?thesis by simp
qed

lemma mixture_fails:
  assumes "i < componentsCount" "density s i color = Inl e"
  shows "mixture s color = Inl StsAssert"
  unfolding mixture_def
proof (rule for_each_fails [where x = i])
  have e: "e = StsAssert" using assms by (rule density_error)
  show "i \<in> set [0..<componentsCount]" using assms(1) by simp
  show "(case density s i color of Inl e \<Rightarrow> Inl e | Inr p \<Rightarrow> Inr (res + coefs s i * p))
          = Inl StsAssert" for res
    using assms(2) e by simp
  show "e' = StsAssert"
    if "y \<in> set [0..<componentsCount]"
      "(case density s y color of Inl e \<Rightarrow> Inl e | Inr p \<Rightarrow> Inr (res + coefs s y * p)) = Inl e'"
    for res y e'
    using that density_error [of y s color] by (auto split: sum.splits)
qed

text \<open>
  Claim C5. The mixture density is the sum, over all \<open>componentsCount\<close> components, of the
  weight times the component density; a component of weight zero has density 0 and adds 0.
  When the assertion of some component fails, the mixture density fails as well.
\<close>

theorem mixture_is_weighted_sum:
  "((\<forall>i<componentsCount. density s i color = Inr (d i)) \<longrightarrow>
      mixture s color = Inr (\<Sum>i<componentsCount. coefs s i * d i)
      \<and> (\<forall>i<componentsCount. coefs s i = 0 \<longrightarrow> d i = 0 \<and> coefs s i * d i = 0))
   \<and> ((\<exists>i<componentsCount. \<exists>e. density s i color = Inl e) \<longrightarrow>
        mixture s color = Inl StsAssert)"
  using mixture_sum [of s color d] mixture_fails [of _ s color] by blast

theorem mixture_is_weighted_sum_witness:
  "mixture unit_gmm (Vec3d 0 0 0) = Inr 1"
proof -
  have h: "\<forall>i<componentsCount. density unit_gmm i (Vec3d 0 0 0) = Inr (if i = 0 then 1 else 0)"
    by (simp add: unit_gmm_density)
  have one: "(\<Sum>i<componentsCount. coefs unit_gmm i * (if i = 0 then 1 else 0)) = 1"
    by (simp add: unit_gmm_simps componentsCount_def eval_nat_numeral)
  have "mixture unit_gmm (Vec3d 0 0 0)
          = Inr (\<Sum>i<componentsCount. coefs unit_gmm i * (if i = 0 then 1 else 0))"
    using mixture_is_weighted_sum [of unit_gmm "Vec3d 0 0 0" "\<lambda>i. if i = 0 then 1 else 0"] h
    by blast
  then show ?thesis by (simp only: one)
qed

subsection \<open>The counters of a learning pass\<close>

lemma fold_init_fields:
  "totalSampleCount (fold (\<lambda>ci s. initLearning_body s ci) xs s) = totalSampleCount s"
  "model (fold (\<lambda>ci s. initLearning_body s ci) xs s) = model s"
  "inverseCovs (fold (\<lambda>ci s. initLearning_body s ci) xs s) = inverseCovs s"
  "covDeterms (fold (\<lambda>ci s. initLearning_body s ci) xs s) = covDeterms s"
  by (induction xs arbitrary: s) (simp_all add: initLearning_body_def)

lemma fold_init_acc:
  "sampleCounts (fold (\<lambda>ci s. initLearning_body s ci) xs s) i = (if i \<in> set xs then 0 else sampleCounts s i)"
  "sums_acc (fold (\<lambda>ci s. initLearning_body s ci) xs s) i = (if i \<in> set xs then (\<lambda>_. 0) else sums_acc s i)"
  "prods (fold (\<lambda>ci s. initLearning_body s ci) xs s) i = (if i \<in> set xs then (\<lambda>_ _. 0) else prods s i)"
  by (induction xs arbitrary: s) (simp_all add: initLearning_body_def)

lemma initLearning_simps:
  "totalSampleCount (initLearning s) = 0"
  "i < componentsCount \<Longrightarrow> sampleCounts (initLearning s) i = 0"
  "i < componentsCount \<Longrightarrow> sums_acc (initLearning s) i k = 0"
  "i < componentsCount \<Longrightarrow> prods (initLearning s) i r k = 0"
  "model (initLearning s) = model s"
  "inverseCovs (initLearning s) = inverseCovs s"
  "covDeterms (initLearning s) = covDeterms s"
  by (simp_all add: initLearning_def fold_init_acc fold_init_fields)

lemma acc_inv_init: "acc_inv (initLearning s)"
  by (simp add: acc_inv_def initLearning_simps)

lemma addSample_counts:
  assumes "addSample s ci color = Inr s'"
  shows "ci < componentsCount" "sampleCounts s' = (sampleCounts s)(ci := sampleCounts s ci + 1)"
    "totalSampleCount s' = totalSampleCount s + 1"
    "sampleCounts s ci < INT_MAX \<or> INT_MAX < sampleCounts s ci"
  using assms by (auto simp: addSample_def split: if_splits)

lemma sum_upd_one:
  fixes f :: "nat \<Rightarrow> int"
  assumes "ci < n"
  shows "(\<Sum>i<n. (f(ci := f ci + 1)) i) = (\<Sum>i<n. f i) + 1"
proof -
  have "(\<Sum>i<n. (f(ci := f ci + 1)) i) = (\<Sum>i<n. f i + (if i = ci then 1 else 0))"
    by (rule sum.cong) auto
  also have "\<dots> = (\<Sum>i<n. f i) + (\<Sum>i<n. if i = ci then 1 else 0)"
    by (simp add: sum.distrib)
  also have "(\<Sum>i<n. if i = ci then 1 else 0 :: int) = 1"
    using assms by simp
  finally show ?thesis .
qed

lemma acc_inv_addSample:
  assumes "acc_inv s" "addSample s ci color = Inr s'"
  shows "acc_inv s'"
proof -
  note c = addSample_counts [OF assms(2)]
  have "(\<Sum>i<componentsCount. sampleCounts s' i) = (\<Sum>i<componentsCount. sampleCounts s i) + 1"
    unfolding c(2) by (rule sum_upd_one [OF c(1)])
  then have "totalSampleCount s' = (\<Sum>i<componentsCount. sampleCounts s' i)"
    using assms(1) c(3) by (simp add: acc_inv_def)
  moreover have "\<forall>i<componentsCount. 0 \<le> sampleCounts s' i"
    using assms(1) c by (auto simp: acc_inv_def)
  ultimately show ?thesis by (simp add: acc_inv_def)
qed

lemma acc_inv_le_total:
  assumes "acc_inv s" "ci < componentsCount"
  shows "sampleCounts s ci \<le> totalSampleCount s"
proof -
  have "sampleCounts s ci \<le> (\<Sum>i\<in>{..<componentsCount}. sampleCounts s i)"
    by (rule member_le_sum) (use assms in \<open>auto simp: acc_inv_def\<close>)
  then show ?thesis using assms by (simp add: acc_inv_def)
qed

text \<open>
  Claim C10. After \<open>initLearning\<close> the total count is the sum of the counts of the
  components, none of which is negative. Every \<open>addSample\<close> that returns preserves this: it
  adds 1 to the count of its component, leaves the other counts, and adds 1 to the total. And
  \<open>addSample\<close> does return for a component index in range as long as the total is below
  \<open>INT_MAX\<close>.
\<close>

theorem accumulator_invariant:
  "acc_inv (initLearning s0)
   \<and> (acc_inv s \<and> addSample s ci color = Inr s' \<longrightarrow>
        acc_inv s' \<and> sampleCounts s' ci = sampleCounts s ci + 1
        \<and> (\<forall>j. j \<noteq> ci \<longrightarrow> sampleCounts s' j = sampleCounts s j)
        \<and> totalSampleCount s' = totalSampleCount s + 1)
   \<and> (acc_inv s \<and> ci < componentsCount \<and> totalSampleCount s < INT_MAX \<longrightarrow>
        (\<exists>s'. addSample s ci color = Inr s'))"
proof (intro conjI impI)
  show "acc_inv (initLearning s0)" by (rule acc_inv_init)
next
  assume a: "acc_inv s \<and> addSample s ci color = Inr s'"
  then show "acc_inv s'" using acc_inv_addSample by blast
  show "sampleCounts s' ci = sampleCounts s ci + 1"
    "\<forall>j. j \<noteq> ci \<longrightarrow> sampleCounts s' j = sampleCounts s j"
    "totalSampleCount s' = totalSampleCount s + 1"
    using addSample_counts [of s ci color s'] a by simp_all
next
  assume a: "acc_inv s \<and> ci < componentsCount \<and> totalSampleCount s < INT_MAX"
  then have "sampleCounts s ci \<le> totalSampleCount s" using acc_inv_le_total by blast
  with a show "\<exists>s'. addSample s ci color = Inr s'"
    by (simp add: addSample_def)
qed

theorem accumulator_invariant_witness:
  "acc_inv (initLearning unit_gmm)
   \<and> (\<exists>s'. addSample (initLearning unit_gmm) 2 (Vec3d 1 2 3) = Inr s' \<and> acc_inv s'
          \<and> sampleCounts s' 2 = 1 \<and> totalSampleCount s' = 1)"
proof -
  note inv = accumulator_invariant [of unit_gmm "initLearning unit_gmm" 2 "Vec3d 1 2 3"]
  have pre: "acc_inv (initLearning unit_gmm)" using inv [of undefined] by simp
  have "(2::nat) < componentsCount" "totalSampleCount (initLearning unit_gmm) < INT_MAX"
    by (simp_all add: componentsCount_def initLearning_simps INT_MAX_def)
  with pre inv [of undefined] obtain s' where s': "addSample (initLearning unit_gmm) 2 (Vec3d 1 2 3) = Inr s'"
    by blast
  with pre inv [of s'] have "acc_inv s'" "sampleCounts s' 2 = sampleCounts (initLearning unit_gmm) 2 + 1"
      "totalSampleCount s' = totalSampleCount (initLearning unit_gmm) + 1"
    by simp_all
  then show ?thesis using pre s' by (simp add: initLearning_simps componentsCount_def)
qed

lemma acc_inv_addSamples:
  "acc_inv s \<Longrightarrow> addSamples s xs = Inr s' \<Longrightarrow>
     acc_inv s' \<and> totalSampleCount s' = totalSampleCount s + int (length xs)"
proof (induction xs arbitrary: s)
  case Nil
  then show ?case by simp
next
  case (Cons x xs)
  then obtain s1 where s1: "addSample s (fst x) (snd x) = Inr s1" "addSamples s1 xs = Inr s'"
    by (auto split: sum.splits)
  have "acc_inv s1" "totalSampleCount s1 = totalSampleCount s + 1"
    using acc_inv_addSample [OF Cons.prems(1) s1(1)] addSample_counts [OF s1(1)] by simp_all
  then show ?case using Cons.IH [OF _ s1(2)] by simp
qed

subsection \<open>The cache of one component\<close>

lemma add_white_noise_fields [simp]:
  "inverseCovs (add_white_noise s ci e) = inverseCovs s"
  "covDeterms (add_white_noise s ci e) = covDeterms s"
  "sums_acc (add_white_noise s ci e) = sums_acc s"
  "prods (add_white_noise s ci e) = prods s"
  "sampleCounts (add_white_noise s ci e) = sampleCounts s"
  "totalSampleCount (add_white_noise s ci e) = totalSampleCount s"
  "mat_type (model (add_white_noise s ci e)) = mat_type (model s)"
  "mat_rows (model (add_white_noise s ci e)) = mat_rows (model s)"
  "mat_cols (model (add_white_noise s ci e)) = mat_cols (model s)"
  by (simp_all add: add_white_noise_def Let_def)

lemma views_add_white_noise:
  "cov (add_white_noise s ci e) (9 * ci + j) = regularized (\<lambda>j. cov s (9 * ci + j)) e j"
  "cov (add_white_noise s ci e) (9 * ci) = cov s (9 * ci) + e"
  "b < 9 * ci \<or> 9 * ci + 9 \<le> b \<Longrightarrow> cov (add_white_noise s ci e) b = cov s b"
  "i < 3 * componentsCount \<Longrightarrow> mean (add_white_noise s ci e) i = mean s i"
  "i < componentsCount \<Longrightarrow> coefs (add_white_noise s ci e) i = coefs s i"
  by (auto simp: add_white_noise_def Let_def regularized_def)

text \<open>The state a successful call returns, written out.\<close>

lemma calc_eq:
  "calcInverseCovAndDeterm s ci e =
     (if 0 < coefs s ci then
        let s1 = (if determ (\<lambda>j. cov s (9 * ci + j)) \<le> 1 / 10 ^ 6 \<and> 0 < e
                  then add_white_noise s ci e else s);
            c = (\<lambda>j. cov s1 (9 * ci + j))
        in if DBL_EPSILON < determ c
           then Inr (s1\<lparr>covDeterms := (covDeterms s1)(ci := determ c),
                       inverseCovs := (inverseCovs s1)(ci := cofactors c (1 / determ c))\<rparr>)
           else Inl StsAssert
      else Inr s)"
  by (simp add: calcInverseCovAndDeterm_def Let_def)

lemma determ_cong: "(\<And>j. j < 9 \<Longrightarrow> c j = c' j) \<Longrightarrow> determ c = determ c'"
  by (simp add: determ_def)

lemma cofactors_cong: "(\<And>j. j < 9 \<Longrightarrow> c j = c' j) \<Longrightarrow> cofactors c x = cofactors c' x"
  by (simp add: cofactors_def fun_eq_iff)

lemma calc_frame:
  assumes "calcInverseCovAndDeterm s ci e = Inr s'"
  shows "same_acc s s'"
    and "i < componentsCount \<Longrightarrow> coefs s' i = coefs s i"
    and "i < 3 * componentsCount \<Longrightarrow> mean s' i = mean s i"
    and "i \<noteq> ci \<Longrightarrow> covDeterms s' i = covDeterms s i"
    and "i \<noteq> ci \<Longrightarrow> inverseCovs s' i = inverseCovs s i"
    and "b < 9 * ci \<or> 9 * ci + 9 \<le> b \<Longrightarrow> cov s' b = cov s b"
  using assms
  by (auto simp: calc_eq Let_def same_acc_def views_add_white_noise split: if_splits)

lemma calc_value:
  assumes "calcInverseCovAndDeterm s ci e = Inr s'" "0 < coefs s ci"
  shows "cov s' (9 * ci + j)
           = (if determ (\<lambda>j. cov s (9 * ci + j)) \<le> 1 / 10 ^ 6 \<and> 0 < e
              then regularized (\<lambda>j. cov s (9 * ci + j)) e j else cov s (9 * ci + j))"
    and "covDeterms s' ci = determ (\<lambda>j. cov s' (9 * ci + j))"
    and "DBL_EPSILON < covDeterms s' ci"
    and "inverseCovs s' ci = cofactors (\<lambda>j. cov s' (9 * ci + j)) (1 / covDeterms s' ci)"
  using assms
  by (auto simp: calc_eq Let_def views_add_white_noise split: if_splits)

lemma calc_second:
  assumes "ci < componentsCount" "calcInverseCovAndDeterm s ci e = Inr s1" "0 < coefs s ci"
  shows "0 < coefs s1 ci" "determ (\<lambda>j. cov s1 (9 * ci + j)) = covDeterms s1 ci"
    "DBL_EPSILON < covDeterms s1 ci"
    "inverseCovs s1 ci = cofactors (\<lambda>j. cov s1 (9 * ci + j)) (1 / covDeterms s1 ci)"
  using assms
  by (auto simp: calc_eq Let_def views_add_white_noise split: if_splits)

lemma calc_regularizes:
  assumes "ci < componentsCount" "0 < coefs s ci" "determ (\<lambda>j. cov s (9 * ci + j)) \<le> 1 / 10 ^ 6" "0 < e"
    "DBL_EPSILON < determ (regularized (\<lambda>j. cov s (9 * ci + j)) e)"
  shows "\<exists>s'. calcInverseCovAndDeterm s ci e = Inr s'
           \<and> (\<forall>j. cov s' (9 * ci + j) = regularized (\<lambda>j. cov s (9 * ci + j)) e j)
           \<and> covDeterms s' ci = determ (regularized (\<lambda>j. cov s (9 * ci + j)) e)
           \<and> inverseCovs s' ci = cofactors (regularized (\<lambda>j. cov s (9 * ci + j)) e)
                                     (1 / determ (regularized (\<lambda>j. cov s (9 * ci + j)) e))
           \<and> coefs s' ci = coefs s ci"
proof -
  have c1: "(\<lambda>j. cov (add_white_noise s ci e) (9 * ci + j)) = regularized (\<lambda>j. cov s (9 * ci + j)) e"
    by (simp add: views_add_white_noise fun_eq_iff)
  show ?thesis
    unfolding calc_eq Let_def using assms by (simp add: c1 views_add_white_noise)
qed

text \<open>The matrix the call stores is the inverse of the covariance it has read.\<close>

lemma cofactors_scale: "cofactors c x r i = cofactors c 1 r i * x"
  by (simp add: cofactors_def)

lemma adjugate_product:
  assumes "r < 3" "k < 3"
  shows "(\<Sum>i<3. cofactors c 1 r i * c (3 * i + k)) = (if r = k then determ c else 0)"
proof -
  have r: "r = 0 \<or> r = 1 \<or> r = 2" and k: "k = 0 \<or> k = 1 \<or> k = 2" using assms by auto
  from r k show ?thesis
    by (elim disjE; simp add: sum_lessThan_3 cofactors_def determ_def)
       (simp_all add: algebra_simps numeral_2_eq_2 [symmetric])
qed

lemma cofactors_inverse:
  assumes "determ c \<noteq> 0" "r < 3" "k < 3"
  shows "(\<Sum>i<3. cofactors c (1 / determ c) r i * c (3 * i + k)) = (if r = k then 1 else 0)"
proof -
  have "(\<Sum>i<3. cofactors c (1 / determ c) r i * c (3 * i + k))
          = (\<Sum>i<3. cofactors c 1 r i * c (3 * i + k)) * (1 / determ c)"
    unfolding cofactors_scale [of c "1 / determ c"] sum_distrib_right
    by (rule sum.cong) simp_all
  then show ?thesis
    using assms by (simp add: adjugate_product)
qed

lemma recompute_same:
  assumes "ci < componentsCount" "calcInverseCovAndDeterm s ci e = Inr s1"
  shows "calcInverseCovAndDeterm s1 ci e = Inr s1
           \<longleftrightarrow> \<not> (0 < coefs s ci \<and> covDeterms s1 ci \<le> 1 / 10 ^ 6 \<and> 0 < e)"
proof (cases "0 < coefs s ci")
  case False
  then have "s1 = s" using assms(2) by (simp add: calc_eq)
  then show ?thesis using False by (simp add: calc_eq)
next
  case True
  note f = calc_second [OF assms True]
  show ?thesis
  proof (cases "covDeterms s1 ci \<le> 1 / 10 ^ 6 \<and> 0 < e")
    case True
    have "cov s2 (9 * ci + 0) = cov s1 (9 * ci + 0) + e"
      if "calcInverseCovAndDeterm s1 ci e = Inr s2" for s2
      using that f(1,2) True
      by (auto simp: calc_eq Let_def views_add_white_noise split: if_splits)
    then have "calcInverseCovAndDeterm s1 ci e \<noteq> Inr s1" using True by fastforce
    then show ?thesis using True \<open>0 < coefs s ci\<close> by simp
  next
    case False
    have "s1\<lparr>covDeterms := (covDeterms s1)(ci := covDeterms s1 ci),
              inverseCovs := (inverseCovs s1)(ci := inverseCovs s1 ci)\<rparr> = s1"
      by simp
    then have "calcInverseCovAndDeterm s1 ci e = Inr s1"
      using f False by (auto simp: calc_eq Let_def)
    then show ?thesis using False by simp
  qed
qed

lemma recompute_again:
  assumes "ci < componentsCount" "calcInverseCovAndDeterm s ci e = Inr s1"
    "0 < coefs s ci" "covDeterms s1 ci \<le> 1 / 10 ^ 6" "0 < e"
    "calcInverseCovAndDeterm s1 ci e = Inr s2"
  shows "cov s2 (9 * ci + j)
           = (if j = 0 \<or> j = 4 \<or> j = 8 then cov s1 (9 * ci + j) + e else cov s1 (9 * ci + j))"
proof -
  note f = calc_second [OF assms(1,2,3)]
  have "cov s2 (9 * ci + j) = regularized (\<lambda>j. cov s1 (9 * ci + j)) e j"
    using assms(4,5,6) f(1,2)
    by (auto simp: calc_eq Let_def views_add_white_noise split: if_splits)
  then show ?thesis by (simp add: regularized_def)
qed

text \<open>
  Claim C7, as amended. After a call of \<open>calcInverseCovAndDeterm\<close> that returned, a second
  call with the same arguments returns the very same object (the same covariance, determinant
  and inverse) exactly when it does not regularise: when the component is inactive, or the
  correction is not positive, or the determinant the first call has cached exceeds \<open>1e-6\<close>.
  Otherwise the second call, when it returns, has added the correction to the diagonal of the
  stored covariance once more.
\<close>

theorem recompute_twice:
  assumes "ci < componentsCount" "calcInverseCovAndDeterm s ci e = Inr s1"
  shows "(calcInverseCovAndDeterm s1 ci e = Inr s1
            \<longleftrightarrow> \<not> (0 < coefs s ci \<and> covDeterms s1 ci \<le> 1 / 10 ^ 6 \<and> 0 < e))
         \<and> (0 < coefs s ci \<and> covDeterms s1 ci \<le> 1 / 10 ^ 6 \<and> 0 < e \<longrightarrow>
              (\<forall>s2. calcInverseCovAndDeterm s1 ci e = Inr s2 \<longrightarrow>
                 (\<forall>j. cov s2 (9 * ci + j)
                        = (if j = 0 \<or> j = 4 \<or> j = 8 then cov s1 (9 * ci + j) + e
                           else cov s1 (9 * ci + j)))))"
  using recompute_same [OF assms] recompute_again [OF assms] by blast

theorem recompute_twice_witness:
  "\<not> isl (calcInverseCovAndDeterm unit_gmm 0 (1 / 100))
   \<and> calc_twice unit_gmm 0 (1 / 100) = calcInverseCovAndDeterm unit_gmm 0 (1 / 100)"
proof -
  have c0: "0 < coefs unit_gmm 0" by (simp add: unit_gmm_simps componentsCount_def)
  have d: "determ (\<lambda>j. cov unit_gmm (9 * 0 + j)) = 1"
    by (simp add: determ_def unit_gmm_cov)
  obtain s1 where s1: "calcInverseCovAndDeterm unit_gmm 0 (1 / 100) = Inr s1"
    using c0 d by (simp add: calc_eq Let_def DBL_EPSILON_def)
  then have "covDeterms s1 0 = 1"
    using c0 d by (auto simp: calc_eq Let_def DBL_EPSILON_def split: if_splits)
  then have "calcInverseCovAndDeterm s1 0 (1 / 100) = Inr s1"
    using recompute_twice [of 0 unit_gmm "1 / 100" s1, THEN conjunct1] s1
    by (simp add: componentsCount_def)
  then show ?thesis using s1 by (simp add: calc_twice_def)
qed

text \<open>
  Claim C7 as it was stated promises the same cache for every correction. With the correction
  \<open>1 / 1024\<close> on a covariance that is all zero, the first call stores the diagonal
  \<open>1 / 1024\<close> and the determinant \<open>2\<^sup>-\<^sup>3\<^sup>0\<close>, which is above the machine epsilon and below
  \<open>1e-6\<close>; the second call therefore adds the correction once more.
\<close>

theorem recompute_twice_counterexample:
  "\<not> isl (calcInverseCovAndDeterm flat_gmm 0 (1 / 1024))
   \<and> \<not> isl (calc_twice flat_gmm 0 (1 / 1024))
   \<and> cov (projr (calcInverseCovAndDeterm flat_gmm 0 (1 / 1024))) 0 = 1 / 1024
   \<and> cov (projr (calc_twice flat_gmm 0 (1 / 1024))) 0 = 1 / 512
   \<and> covDeterms (projr (calcInverseCovAndDeterm flat_gmm 0 (1 / 1024))) 0 = 1 / 2 ^ 30
   \<and> covDeterms (projr (calc_twice flat_gmm 0 (1 / 1024))) 0 = 1 / 2 ^ 27
   \<and> inverseCovs (projr (calcInverseCovAndDeterm flat_gmm 0 (1 / 1024))) 0 0 0 = 1024
   \<and> inverseCovs (projr (calc_twice flat_gmm 0 (1 / 1024))) 0 0 0 = 512"
proof -
  let ?e = "1 / 1024 :: real"
  let ?c1 = "regularized (\<lambda>j. 0) ?e"
  let ?c2 = "regularized ?c1 ?e"
  have d1: "determ ?c1 = 1 / 2 ^ 30" and d2: "determ ?c2 = 1 / 2 ^ 27"
    by (simp_all add: determ_def regularized_def)
  have d0: "determ (\<lambda>j. 0) = 0" by (simp add: determ_def)
  have cc: "(0::nat) < componentsCount" by (simp add: componentsCount_def)
  have "\<exists>s'. calcInverseCovAndDeterm flat_gmm 0 ?e = Inr s'
           \<and> (\<forall>j. cov s' (9 * 0 + j) = regularized (\<lambda>j. cov flat_gmm (9 * 0 + j)) ?e j)
           \<and> covDeterms s' 0 = determ (regularized (\<lambda>j. cov flat_gmm (9 * 0 + j)) ?e)
           \<and> inverseCovs s' 0 = cofactors (regularized (\<lambda>j. cov flat_gmm (9 * 0 + j)) ?e)
                                     (1 / determ (regularized (\<lambda>j. cov flat_gmm (9 * 0 + j)) ?e))
           \<and> coefs s' 0 = coefs flat_gmm 0"
    by (rule calc_regularizes [OF cc]) (simp_all add: flat_gmm_views d0 d1 DBL_EPSILON_def)
  then obtain s1 where first: "calcInverseCovAndDeterm flat_gmm 0 ?e = Inr s1"
    and cov1: "\<And>j. cov s1 j = ?c1 j" and det1: "covDeterms s1 0 = 1 / 2 ^ 30"
    and inv1: "inverseCovs s1 0 = cofactors ?c1 (2 ^ 30)" and coef1: "coefs s1 0 = 1"
    by (auto simp: flat_gmm_views d1)
  have "\<exists>s'. calcInverseCovAndDeterm s1 0 ?e = Inr s'
           \<and> (\<forall>j. cov s' (9 * 0 + j) = regularized (\<lambda>j. cov s1 (9 * 0 + j)) ?e j)
           \<and> covDeterms s' 0 = determ (regularized (\<lambda>j. cov s1 (9 * 0 + j)) ?e)
           \<and> inverseCovs s' 0 = cofactors (regularized (\<lambda>j. cov s1 (9 * 0 + j)) ?e)
                                     (1 / determ (regularized (\<lambda>j. cov s1 (9 * 0 + j)) ?e))
           \<and> coefs s' 0 = coefs s1 0"
    by (rule calc_regularizes [OF cc]) (simp_all add: cov1 coef1 d1 d2 DBL_EPSILON_def)
  then obtain s2 where second: "calcInverseCovAndDeterm s1 0 ?e = Inr s2"
    and cov2: "\<And>j. cov s2 j = ?c2 j" and det2: "covDeterms s2 0 = 1 / 2 ^ 27"
    and inv2: "inverseCovs s2 0 = cofactors ?c2 (2 ^ 27)"
    by (auto simp: cov1 d2)
  have twice: "calc_twice flat_gmm 0 ?e = Inr s2"
    by (simp add: calc_twice_def first second)
  have "inverseCovs s1 0 0 0 = 1024" "inverseCovs s2 0 0 0 = 512"
    by (simp_all add: inv1 inv2 cofactors_def regularized_def)
  moreover have "cov s1 0 = 1 / 1024" "cov s2 0 = 1 / 512"
    by (simp_all add: cov1 cov2 regularized_def)
  ultimately show ?thesis
    by (simp add: first twice det1 det2)
qed

subsection \<open>The correction of a small determinant\<close>





subsection \<open>The constructor\<close>

lemma ctor_cache_0: "ctor_cache m s0 0 = s0\<lparr>model := m\<rparr>"
proof -
  have "ctor_invs m s0 0 = inverseCovs s0" "ctor_dets m s0 0 = covDeterms s0"
    by (simp_all add: ctor_invs_def ctor_dets_def fun_eq_iff)
  then show ?thesis by (simp add: ctor_cache_def)
qed

lemma ctor_cache_Suc:
  "ctor_cache m s0 (Suc n) =
     (if 0 < mat_data m n
      then (ctor_cache m s0 n)
             \<lparr>covDeterms := (covDeterms (ctor_cache m s0 n))
                               (n := determ (\<lambda>j. mat_data m (20 + 9 * n + j))),
              inverseCovs := (inverseCovs (ctor_cache m s0 n))
                               (n := cofactors (\<lambda>j. mat_data m (20 + 9 * n + j))
                                       (1 / determ (\<lambda>j. mat_data m (20 + 9 * n + j))))\<rparr>
      else ctor_cache m s0 n)"
proof -
  have "ctor_dets m s0 (Suc n) =
          (if 0 < mat_data m n
           then (ctor_dets m s0 n)(n := determ (\<lambda>j. mat_data m (20 + 9 * n + j)))
           else ctor_dets m s0 n)"
    by (auto simp: ctor_dets_def fun_eq_iff less_Suc_eq)
  moreover have "ctor_invs m s0 (Suc n) =
          (if 0 < mat_data m n
           then (ctor_invs m s0 n)(n := cofactors (\<lambda>j. mat_data m (20 + 9 * n + j))
                                          (1 / determ (\<lambda>j. mat_data m (20 + 9 * n + j))))
           else ctor_invs m s0 n)"
    by (auto simp: ctor_invs_def fun_eq_iff less_Suc_eq)
  ultimately show ?thesis by (simp add: ctor_cache_def)
qed

lemma ctor_cache_views:
  "coefs (ctor_cache m s0 n) ci = mat_data m ci"
  "cov (ctor_cache m s0 n) (9 * ci + j) = mat_data m (20 + 9 * ci + j)"
  by (simp_all add: ctor_cache_def coefs_def cov_def componentsCount_def add.assoc)

lemma ctor_step:
  "(if 0 < coefs (ctor_cache m s0 n) n then calcInverseCovAndDeterm (ctor_cache m s0 n) n 0
    else Inr (ctor_cache m s0 n))
   = (if 0 < mat_data m n \<and> determ (\<lambda>j. mat_data m (20 + 9 * n + j)) \<le> DBL_EPSILON
      then Inl StsAssert else Inr (ctor_cache m s0 (Suc n)))"
  by (simp add: calc_eq Let_def ctor_cache_views ctor_cache_Suc not_le)

lemma ctor_loop:
  "for_each [0..<n] (\<lambda>s ci. if 0 < coefs s ci then calcInverseCovAndDeterm s ci 0 else Inr s)
     (s0\<lparr>model := m\<rparr>)
   = (if \<exists>ci<n. 0 < mat_data m ci \<and> determ (\<lambda>j. mat_data m (20 + 9 * ci + j)) \<le> DBL_EPSILON
      then Inl StsAssert else Inr (ctor_cache m s0 n))"
proof (induction n)
  case 0
  show ?case by (simp add: ctor_cache_0)
next
  case (Suc n)
  show ?case
    unfolding upt_Suc_append [OF le0] for_each_append Suc.IH
    using ctor_step [of m s0 n] by (auto simp: less_Suc_eq)
qed

lemma GMM_init_eq:
  "GMM_init s0 m =
     (if \<exists>ci<componentsCount. 0 < mat_data m ci \<and> determ (\<lambda>j. mat_data m (20 + 9 * ci + j)) \<le> DBL_EPSILON
      then Inl StsAssert else Inr ((ctor_cache m s0 componentsCount)\<lparr>totalSampleCount := 0\<rparr>))"
  unfolding GMM_init_def ctor_loop by auto

text \<open>
  Claim C8. From an empty buffer the constructor makes a buffer of one row and
  \<open>13 * componentsCount\<close> columns of doubles, all zero, and returns with the total count 0.
  From a buffer that is not empty and whose element type is not double, or that has not
  exactly one row and \<open>13 * componentsCount\<close> columns, it fails with \<open>StsBadArg\<close>. From a
  buffer of the right shape it either fails with \<open>StsAssert\<close>, and then some component of
  positive weight has a determinant that does not exceed the machine epsilon, or it returns
  an object over that very buffer with the total count 0, in which every component of positive
  weight has its determinant and its inverse covariance cached, computed from the covariance
  as it stands, and the cache of the other components is untouched. (In the buffer \<open>m\<close> the
  weight of component \<open>ci\<close> is element \<open>ci\<close> and its covariance starts at element
  \<open>20 + 9 * ci\<close>.)
\<close>

theorem constructor_behaviour:
  "(empty_mat m \<longrightarrow>
      GMM_ctor s0 m = Inr (s0\<lparr>model := create_zero 1 (13 * int componentsCount) CV_64FC1,
                               totalSampleCount := 0\<rparr>))
   \<and> (\<not> empty_mat m \<and> (mat_type m \<noteq> CV_64FC1 \<or> mat_rows m \<noteq> 1
                          \<or> mat_cols m \<noteq> 13 * int componentsCount) \<longrightarrow>
        GMM_ctor s0 m = Inl StsBadArg)
   \<and> (\<not> empty_mat m \<and> mat_type m = CV_64FC1 \<and> mat_rows m = 1
        \<and> mat_cols m = 13 * int componentsCount \<longrightarrow>
        (case GMM_ctor s0 m of
           Inl e \<Rightarrow> e = StsAssert
                     \<and> (\<exists>ci<componentsCount. 0 < mat_data m ci
                            \<and> determ (\<lambda>j. mat_data m (20 + 9 * ci + j)) \<le> DBL_EPSILON)
         | Inr s \<Rightarrow> model s = m \<and> totalSampleCount s = 0
                     \<and> (\<forall>ci<componentsCount.
                           if 0 < coefs s ci
                           then covDeterms s ci = determ (\<lambda>j. cov s (9 * ci + j))
                                \<and> DBL_EPSILON < covDeterms s ci
                                \<and> inverseCovs s ci
                                    = cofactors (\<lambda>j. cov s (9 * ci + j)) (1 / covDeterms s ci)
                           else covDeterms s ci = covDeterms s0 ci
                                \<and> inverseCovs s ci = inverseCovs s0 ci)))"
proof (intro conjI impI)
  assume "empty_mat m"
  let ?z = "create_zero 1 (13 * int componentsCount) CV_64FC1"
  have "ctor_invs ?z s0 componentsCount = inverseCovs s0"
    "ctor_dets ?z s0 componentsCount = covDeterms s0"
    by (simp_all add: ctor_invs_def ctor_dets_def create_zero_def fun_eq_iff)
  then have "ctor_cache ?z s0 componentsCount = s0\<lparr>model := ?z\<rparr>"
    by (simp add: ctor_cache_def)
  moreover have "\<not> (\<exists>ci<componentsCount. 0 < mat_data ?z ci
                    \<and> determ (\<lambda>j. mat_data ?z (20 + 9 * ci + j)) \<le> DBL_EPSILON)"
    by (simp add: create_zero_def)
  ultimately have "GMM_init s0 ?z = Inr (s0\<lparr>model := ?z, totalSampleCount := 0\<rparr>)"
    unfolding GMM_init_eq by simp
  then show "GMM_ctor s0 m = Inr (s0\<lparr>model := ?z, totalSampleCount := 0\<rparr>)"
    using \<open>empty_mat m\<close> by (simp add: GMM_ctor_def)
next
  assume "\<not> empty_mat m \<and> (mat_type m \<noteq> CV_64FC1 \<or> mat_rows m \<noteq> 1
                          \<or> mat_cols m \<noteq> 13 * int componentsCount)"
  then show "GMM_ctor s0 m = Inl StsBadArg" by (auto simp: GMM_ctor_def)
next
  assume ok: "\<not> empty_mat m \<and> mat_type m = CV_64FC1 \<and> mat_rows m = 1
        \<and> mat_cols m = 13 * int componentsCount"
  then have run: "GMM_ctor s0 m = GMM_init s0 m" by (simp add: GMM_ctor_def)
  let ?s = "(ctor_cache m s0 componentsCount)\<lparr>totalSampleCount := 0\<rparr>"
  have v: "coefs ?s ci = mat_data m ci" "cov ?s (9 * ci + j) = mat_data m (20 + 9 * ci + j)" for ci j
    by (simp_all add: ctor_cache_views)
  have cache: "covDeterms ?s ci = ctor_dets m s0 componentsCount ci"
    "inverseCovs ?s ci = ctor_invs m s0 componentsCount ci" "model ?s = m" "totalSampleCount ?s = 0"
    for ci
    by (simp_all add: ctor_cache_def)
  show "case GMM_ctor s0 m of
           Inl e \<Rightarrow> e = StsAssert
                     \<and> (\<exists>ci<componentsCount. 0 < mat_data m ci
                            \<and> determ (\<lambda>j. mat_data m (20 + 9 * ci + j)) \<le> DBL_EPSILON)
         | Inr s \<Rightarrow> model s = m \<and> totalSampleCount s = 0
                     \<and> (\<forall>ci<componentsCount.
                           if 0 < coefs s ci
                           then covDeterms s ci = determ (\<lambda>j. cov s (9 * ci + j))
                                \<and> DBL_EPSILON < covDeterms s ci
                                \<and> inverseCovs s ci
                                    = cofactors (\<lambda>j. cov s (9 * ci + j)) (1 / covDeterms s ci)
                           else covDeterms s ci = covDeterms s0 ci
                                \<and> inverseCovs s ci = inverseCovs s0 ci)"
  proof (cases "\<exists>ci<componentsCount. 0 < mat_data m ci
                    \<and> determ (\<lambda>j. mat_data m (20 + 9 * ci + j)) \<le> DBL_EPSILON")
    case True
    then show ?thesis unfolding run GMM_init_eq by simp
  next
    case False
    then have big: "DBL_EPSILON < determ (\<lambda>j. mat_data m (20 + 9 * ci + j))"
      if "ci < componentsCount" "0 < mat_data m ci" for ci
      using that by (auto simp: not_le)
    have "GMM_ctor s0 m = Inr ?s" using False unfolding run GMM_init_eq by simp
    moreover have "\<forall>ci<componentsCount.
                           if 0 < coefs ?s ci
                           then covDeterms ?s ci = determ (\<lambda>j. cov ?s (9 * ci + j))
                                \<and> DBL_EPSILON < covDeterms ?s ci
                                \<and> inverseCovs ?s ci
                                    = cofactors (\<lambda>j. cov ?s (9 * ci + j)) (1 / covDeterms ?s ci)
                           else covDeterms ?s ci = covDeterms s0 ci
                                \<and> inverseCovs ?s ci = inverseCovs s0 ci"
      unfolding v cache using big by (simp add: ctor_dets_def ctor_invs_def)
    ultimately show ?thesis using cache(3,4) by simp
  qed
qed

theorem constructor_behaviour_witness:
  "GMM_ctor raw_gmm empty_buffer = Inr (raw_gmm\<lparr>model := create_zero 1 65 CV_64FC1,
                                                 totalSampleCount := 0\<rparr>)
   \<and> GMM_ctor raw_gmm (unit_model\<lparr>mat_cols := 64\<rparr>) = Inl StsBadArg
   \<and> \<not> isl (GMM_ctor raw_gmm unit_model)
   \<and> model (projr (GMM_ctor raw_gmm unit_model)) = unit_model
   \<and> totalSampleCount (projr (GMM_ctor raw_gmm unit_model)) = 0
   \<and> covDeterms (projr (GMM_ctor raw_gmm unit_model)) 0 = 1
   \<and> inverseCovs (projr (GMM_ctor raw_gmm unit_model)) 0 0 0 = 1
   \<and> covDeterms (projr (GMM_ctor raw_gmm unit_model)) 1 = 0"
proof -
  have e: "empty_mat empty_buffer" by (simp add: empty_mat_def empty_buffer_def)
  have b: "\<not> empty_mat (unit_model\<lparr>mat_cols := 64\<rparr>)"
    "mat_cols (unit_model\<lparr>mat_cols := 64\<rparr>) \<noteq> 13 * int componentsCount"
    by (simp_all add: empty_mat_def unit_model_def componentsCount_def)
  have g: "\<not> empty_mat unit_model \<and> mat_type unit_model = CV_64FC1 \<and> mat_rows unit_model = 1
        \<and> mat_cols unit_model = 13 * int componentsCount"
    by (simp add: empty_mat_def unit_model_def componentsCount_def)
  have no: "\<not> (\<exists>ci<componentsCount. 0 < mat_data unit_model ci
                \<and> determ (\<lambda>j. mat_data unit_model (20 + 9 * ci + j)) \<le> DBL_EPSILON)"
    by (auto simp: unit_model_def componentsCount_def determ_def DBL_EPSILON_def)
  have 1: "GMM_ctor raw_gmm empty_buffer = Inr (raw_gmm\<lparr>model := create_zero 1 65 CV_64FC1,
                                                 totalSampleCount := 0\<rparr>)"
    using constructor_behaviour [of empty_buffer raw_gmm] e by (simp add: componentsCount_def)
  have 2: "GMM_ctor raw_gmm (unit_model\<lparr>mat_cols := 64\<rparr>) = Inl StsBadArg"
    using constructor_behaviour [of "unit_model\<lparr>mat_cols := 64\<rparr>" raw_gmm] b by blast
  obtain s where s: "GMM_ctor raw_gmm unit_model = Inr s"
    and m: "model s = unit_model" "totalSampleCount s = 0"
    and c: "\<forall>ci<componentsCount.
                           if 0 < coefs s ci
                           then covDeterms s ci = determ (\<lambda>j. cov s (9 * ci + j))
                                \<and> DBL_EPSILON < covDeterms s ci
                                \<and> inverseCovs s ci
                                    = cofactors (\<lambda>j. cov s (9 * ci + j)) (1 / covDeterms s ci)
                           else covDeterms s ci = covDeterms raw_gmm ci
                                \<and> inverseCovs s ci = inverseCovs raw_gmm ci"
    using constructor_behaviour [of unit_model raw_gmm] g no
    by (cases "GMM_ctor raw_gmm unit_model") auto
  have w: "coefs s 0 = 1" "coefs s (Suc 0) = 0" "cov s j = (if j = 0 \<or> j = 4 \<or> j = 8 then 1 else 0)" for j
    by (simp_all add: coefs_def cov_def m unit_model_def componentsCount_def)
  have d0: "covDeterms s 0 = 1" "inverseCovs s 0 = cofactors (\<lambda>j. cov s j) (1 / covDeterms s 0)"
    using c [rule_format, of 0] by (simp_all add: componentsCount_def w determ_def)
  have d1: "covDeterms s 1 = 0"
    using c [rule_format, of 1] by (simp add: componentsCount_def w raw_gmm_def)
  have "inverseCovs s 0 0 0 = 1" by (simp add: d0 cofactors_def w)
  then show ?thesis using 1 2 s m d0(1) d1 by simp
qed

subsection \<open>The end of a learning pass\<close>

lemma fold_cov_views:
  fixes f :: "GMM \<Rightarrow> nat \<Rightarrow> double"
  assumes "\<And>s a v j. j < 9 \<Longrightarrow> f (set_cov s a v) j = f s j"
  shows "set js \<subseteq> {..<9} \<Longrightarrow>
         (let s' = fold (\<lambda>j s. set_cov s (9 * ci + j) (f s j)) js s in
         (\<forall>a. cov s' a = (if \<exists>j\<in>set js. a = 9 * ci + j then f s (a - 9 * ci) else cov s a))
       \<and> (\<forall>j<9. f s' j = f s j)
       \<and> (\<forall>i<3 * componentsCount. mean s' i = mean s i)
       \<and> (\<forall>i<componentsCount. coefs s' i = coefs s i)
       \<and> inverseCovs s' = inverseCovs s \<and> covDeterms s' = covDeterms s
       \<and> sums_acc s' = sums_acc s \<and> prods s' = prods s
       \<and> sampleCounts s' = sampleCounts s \<and> totalSampleCount s' = totalSampleCount s)"
proof (induction js rule: rev_induct)
  case Nil
  show ?case by simp
next
  case (snoc x xs)
  then show ?case by (auto simp: assms(1) Let_def)
qed

lemma fit_component_views:
  fixes s :: GMM
  assumes "ci < componentsCount"
  defines "inv_n \<equiv> 1 / real_of_int (sampleCounts s ci)"
  shows "i < componentsCount \<Longrightarrow> coefs (fit_component s ci) i
           = (if i = ci then real_of_int (sampleCounts s ci) / real_of_int (totalSampleCount s)
              else coefs s i)"
    and "k < 3 \<Longrightarrow> mean (fit_component s ci) (3 * ci + k) = sums_acc s ci k * inv_n"
    and "i < componentsCount \<Longrightarrow> i \<noteq> ci \<Longrightarrow> k < 3 \<Longrightarrow>
           mean (fit_component s ci) (3 * i + k) = mean s (3 * i + k)"
    and "j < 9 \<Longrightarrow> cov (fit_component s ci) (9 * ci + j)
           = prods s ci (j div 3) (j mod 3) * inv_n
               - (sums_acc s ci (j div 3) * inv_n) * (sums_acc s ci (j mod 3) * inv_n)"
    and "i \<noteq> ci \<Longrightarrow> j < 9 \<Longrightarrow> cov (fit_component s ci) (9 * i + j) = cov s (9 * i + j)"
    and "inverseCovs (fit_component s ci) = inverseCovs s"
    and "covDeterms (fit_component s ci) = covDeterms s"
    and "sums_acc (fit_component s ci) = sums_acc s"
    and "prods (fit_component s ci) = prods s"
    and "sampleCounts (fit_component s ci) = sampleCounts s"
    and "totalSampleCount (fit_component s ci) = totalSampleCount s"
proof -
  define s4 where "s4 =
    set_mean (set_mean (set_mean
      (set_coefs s ci (real_of_int (sampleCounts s ci) / real_of_int (totalSampleCount s)))
        (3 * ci + 0) (sums_acc s ci 0 * inv_n)) (3 * ci + 1) (sums_acc s ci 1 * inv_n))
        (3 * ci + 2) (sums_acc s ci 2 * inv_n)"
  define f where "f = (\<lambda>s j. prods s ci (j div 3) (j mod 3) * inv_n
                           - mean s (3 * ci + j div 3) * mean s (3 * ci + j mod 3))"
  have entry: "set_cov_entry t ci inv_n (j div 3) (j mod 3) = set_cov t (9 * ci + j) (f t j)" for t j
    by (simp add: set_cov_entry_def f_def)
  have nine: "[0..<9] = [0, 1, 2, 3, 4, 5, 6, 7, 8::nat]"
    by (simp add: upt_conv_Cons)
  have "fit_component s ci
          = fold (\<lambda>j t. set_cov_entry t ci inv_n (j div 3) (j mod 3)) [0..<9] s4"
    unfolding nine by (simp add: fit_component_def Let_def s4_def inv_n_def)
  then have fit: "fit_component s ci = fold (\<lambda>j s. set_cov s (9 * ci + j) (f s j)) [0..<9] s4"
    by (simp only: entry)
  have inv: "f (set_cov s a v) j = f s j" if "j < 9" for s a v j
  proof -
    have "j div 3 < 3" "j mod 3 < 3" using that by auto
    then have "3 * ci + j div 3 < 3 * componentsCount" "3 * ci + j mod 3 < 3 * componentsCount"
      using assms(1) by (simp_all add: componentsCount_def)
    then show ?thesis by (simp add: f_def)
  qed
  have v0: "(\<forall>a. cov (fit_component s ci) a
                 = (if \<exists>j\<in>set [0..<9]. a = 9 * ci + j then f s4 (a - 9 * ci) else cov s4 a))
       \<and> (\<forall>j<9. f (fit_component s ci) j = f s4 j)
       \<and> (\<forall>i<3 * componentsCount. mean (fit_component s ci) i = mean s4 i)
       \<and> (\<forall>i<componentsCount. coefs (fit_component s ci) i = coefs s4 i)
       \<and> inverseCovs (fit_component s ci) = inverseCovs s4
       \<and> covDeterms (fit_component s ci) = covDeterms s4
       \<and> sums_acc (fit_component s ci) = sums_acc s4 \<and> prods (fit_component s ci) = prods s4
       \<and> sampleCounts (fit_component s ci) = sampleCounts s4
       \<and> totalSampleCount (fit_component s ci) = totalSampleCount s4"
  proof -
    have sub: "set [0..<9] \<subseteq> {..<9::nat}" by auto
    show ?thesis
      using fold_cov_views [of f "[0..<9]" ci s4, OF inv sub] unfolding Let_def fit by blast
  qed
  have vcov: "cov (fit_component s ci) a
                 = (if \<exists>j<9. a = 9 * ci + j then f s4 (a - 9 * ci) else cov s4 a)" for a
    using v0 by auto
  have vmean: "mean (fit_component s ci) i = mean s4 i" if "i < 3 * componentsCount" for i
    using v0 that by blast
  have vcoefs: "coefs (fit_component s ci) i = coefs s4 i" if "i < componentsCount" for i
    using v0 that by blast
  have m4: "mean s4 (3 * ci + k) = sums_acc s ci k * inv_n" if "k < 3" for k
  proof -
    have "k = 0 \<or> k = 1 \<or> k = 2" using that by auto
    then show ?thesis by (auto simp: s4_def)
  qed
  have ci3: "3 * ci + k < 3 * componentsCount" if "k < 3" for k
    using that assms(1) by (simp add: componentsCount_def)
  show "i < componentsCount \<Longrightarrow> coefs (fit_component s ci) i
           = (if i = ci then real_of_int (sampleCounts s ci) / real_of_int (totalSampleCount s)
              else coefs s i)"
    using assms(1) by (simp add: vcoefs) (simp add: s4_def)
  show "k < 3 \<Longrightarrow> mean (fit_component s ci) (3 * ci + k) = sums_acc s ci k * inv_n"
    by (simp add: vmean ci3 m4)
  show "mean (fit_component s ci) (3 * i + k) = mean s (3 * i + k)"
    if "i < componentsCount" "i \<noteq> ci" "k < 3"
  proof -
    have "3 * i + k < 3 * componentsCount" using that by (simp add: componentsCount_def)
    moreover have "3 * i + k \<noteq> 3 * ci + 0" "3 * i + k \<noteq> 3 * ci + 1" "3 * i + k \<noteq> 3 * ci + 2"
      using that by (intro block_index_neq; simp)+
    moreover have "mean s4 b = mean s b"
      if "b \<noteq> 3 * ci + 0" "b \<noteq> 3 * ci + 1" "b \<noteq> 3 * ci + 2" for b
      using that assms(1) unfolding s4_def by simp
    ultimately show ?thesis by (simp add: vmean)
  qed
  show "cov (fit_component s ci) (9 * ci + j)
           = prods s ci (j div 3) (j mod 3) * inv_n
               - (sums_acc s ci (j div 3) * inv_n) * (sums_acc s ci (j mod 3) * inv_n)" if "j < 9"
  proof -
    have "j div 3 < 3" "j mod 3 < 3" using that by auto
    moreover have "prods s4 = prods s" by (simp add: s4_def)
    ultimately have "f s4 j = prods s ci (j div 3) (j mod 3) * inv_n
               - (sums_acc s ci (j div 3) * inv_n) * (sums_acc s ci (j mod 3) * inv_n)"
      by (simp add: f_def m4)
    then show ?thesis using that by (simp add: vcov)
  qed
  show "cov (fit_component s ci) (9 * i + j) = cov s (9 * i + j)" if "i \<noteq> ci" "j < 9"
  proof -
    have "\<not> (\<exists>j'<9. 9 * i + j = 9 * ci + j')" using that block_index_neq [of i ci j 9] by blast
    then have "cov (fit_component s ci) (9 * i + j) = cov s4 (9 * i + j)"
      unfolding vcov by (simp only: if_False)
    also have "\<dots> = cov s (9 * i + j)"
    proof -
      have "3 * ci + 0 < 3 * componentsCount" "3 * ci + 1 < 3 * componentsCount"
        "3 * ci + 2 < 3 * componentsCount" using assms(1) by (simp_all add: componentsCount_def)
      then show ?thesis unfolding s4_def using assms(1) by simp
    qed
    finally show ?thesis .
  qed
  have "inverseCovs s4 = inverseCovs s" "covDeterms s4 = covDeterms s" "sums_acc s4 = sums_acc s"
    "prods s4 = prods s" "sampleCounts s4 = sampleCounts s" "totalSampleCount s4 = totalSampleCount s"
    by (simp_all add: s4_def)
  then show "inverseCovs (fit_component s ci) = inverseCovs s"
    "covDeterms (fit_component s ci) = covDeterms s"
    "sums_acc (fit_component s ci) = sums_acc s"
    "prods (fit_component s ci) = prods s"
    "sampleCounts (fit_component s ci) = sampleCounts s"
    "totalSampleCount (fit_component s ci) = totalSampleCount s"
    using v0 by simp_all
qed

lemma fit_cov_sample:
  assumes "ci < componentsCount" "j < 9"
  shows "cov (fit_component s ci) (9 * ci + j) = sample_cov s ci j"
  using fit_component_views(4) [OF assms] by (simp add: sample_cov_def sample_mean_def)

lemma same_refl [simp]: "same_acc s s" "same_comp s s i"
  by (simp_all add: same_acc_def same_comp_def)

lemma same_acc_trans: "same_acc s s1 \<Longrightarrow> same_acc s1 s2 \<Longrightarrow> same_acc s s2"
  by (simp add: same_acc_def)

lemma same_comp_trans: "same_comp s s1 i \<Longrightarrow> same_comp s1 s2 i \<Longrightarrow> same_comp s s2 i"
  by (simp add: same_comp_def)

lemma endLearning_body_frame:
  assumes "ci < componentsCount" "endLearning_body s ci = Inr s'"
  shows "same_acc s s'" and "i < componentsCount \<Longrightarrow> i \<noteq> ci \<Longrightarrow> same_comp s s' i"
proof -
  let ?n = "sampleCounts s ci"
  show "same_acc s s'"
  proof (cases "?n = 0")
    case True
    then show ?thesis using assms(2) by (auto simp: endLearning_body_def same_acc_def)
  next
    case False
    then have c: "calcInverseCovAndDeterm (fit_component s ci) ci (1 / 100) = Inr s'"
      using assms(2) by (simp add: endLearning_body_def split: if_splits)
    show ?thesis
      using calc_frame(1) [OF c] fit_component_views(8-11) [OF assms(1), of s]
      by (simp add: same_acc_def)
  qed
  show "same_comp s s' i" if i: "i < componentsCount" "i \<noteq> ci"
  proof (cases "?n = 0")
    case True
    then have "s' = set_coefs s ci 0" using assms(2) by (simp add: endLearning_body_def)
    then show ?thesis using i assms(1) by (simp add: same_comp_def)
  next
    case False
    then have c: "calcInverseCovAndDeterm (fit_component s ci) ci (1 / 100) = Inr s'"
      using assms(2) by (simp add: endLearning_body_def split: if_splits)
    have "coefs s' i = coefs s i"
      using calc_frame(2) [OF c i(1)] fit_component_views(1) [OF assms(1) i(1), of s] i(2) by simp
    moreover have "mean s' (3 * i + k) = mean s (3 * i + k)" if "k < 3" for k
    proof -
      have "3 * i + k < 3 * componentsCount" using that i(1) by (simp add: componentsCount_def)
      then show ?thesis
        using calc_frame(3) [OF c] fit_component_views(3) [OF assms(1) i that, of s] by simp
    qed
    moreover have "cov s' (9 * i + j) = cov s (9 * i + j)" if "j < 9" for j
    proof -
      have "9 * i + j < 9 * ci \<or> 9 * ci + 9 \<le> 9 * i + j"
        using that i(2) by (intro block_index_outside)
      then show ?thesis
        using calc_frame(6) [OF c] fit_component_views(5) [OF assms(1) i(2) that, of s] by simp
    qed
    moreover have "covDeterms s' i = covDeterms s i" "inverseCovs s' i = inverseCovs s i"
      using calc_frame(4,5) [OF c i(2)] fit_component_views(6,7) [OF assms(1), of s] by simp_all
    ultimately show ?thesis by (simp add: same_comp_def)
  qed
qed

lemma endLearning_body_fitted:
  assumes "ci < componentsCount" "endLearning_body s ci = Inr s'"
  shows "fitted s s' ci"
proof -
  let ?n = "sampleCounts s ci"
  have zero: "coefs s' ci = 0" if "?n = 0"
    using that assms(2) by (auto simp: endLearning_body_def)
  have pos: "0 < totalSampleCount s
          \<and> coefs s' ci = real_of_int ?n / real_of_int (totalSampleCount s)
          \<and> (\<forall>k<3. mean s' (3 * ci + k) = sample_mean s ci k)
          \<and> (\<forall>j<9. cov s' (9 * ci + j)
                 = (if determ (sample_cov s ci) \<le> 1 / 10 ^ 6
                    then regularized (sample_cov s ci) (1 / 100) j else sample_cov s ci j))
          \<and> covDeterms s' ci = determ (\<lambda>j. cov s' (9 * ci + j))
          \<and> DBL_EPSILON < covDeterms s' ci
          \<and> inverseCovs s' ci = cofactors (\<lambda>j. cov s' (9 * ci + j)) (1 / covDeterms s' ci)"
    if n: "0 < ?n"
  proof -
    have t: "0 < totalSampleCount s"
      and c: "calcInverseCovAndDeterm (fit_component s ci) ci (1 / 100) = Inr s'"
      using assms(2) n by (simp_all add: endLearning_body_def split: if_splits)
    have w: "coefs (fit_component s ci) ci = real_of_int ?n / real_of_int (totalSampleCount s)"
      using fit_component_views(1) [OF assms(1) assms(1), of s] by simp
    then have active: "0 < coefs (fit_component s ci) ci" using n t by simp
    have d: "determ (\<lambda>j. cov (fit_component s ci) (9 * ci + j)) = determ (sample_cov s ci)"
      by (rule determ_cong) (simp add: fit_cov_sample assms(1))
    have "coefs s' ci = real_of_int ?n / real_of_int (totalSampleCount s)"
      using calc_frame(2) [OF c assms(1)] w by simp
    moreover have "mean s' (3 * ci + k) = sample_mean s ci k" if "k < 3" for k
    proof -
      have "3 * ci + k < 3 * componentsCount" using that assms(1) by (simp add: componentsCount_def)
      then show ?thesis
        using calc_frame(3) [OF c] fit_component_views(2) [OF assms(1) that, of s]
        by (simp add: sample_mean_def)
    qed
    moreover have "cov s' (9 * ci + j)
                 = (if determ (sample_cov s ci) \<le> 1 / 10 ^ 6
                    then regularized (sample_cov s ci) (1 / 100) j else sample_cov s ci j)"
      if "j < 9" for j
      using calc_value(1) [OF c active, of j] that
      by (simp add: d fit_cov_sample assms(1) regularized_def)
    ultimately show ?thesis using t calc_value(2-4) [OF c active] by simp
  qed
  show ?thesis unfolding fitted_def using zero pos by blast
qed

lemma fitted_transfer:
  assumes "fitted s1 s2 ci" "same_acc s0 s1" "same_comp s2 s3 ci"
  shows "fitted s0 s3 ci"
proof -
  have d: "determ (\<lambda>j. cov s3 (9 * ci + j)) = determ (\<lambda>j. cov s2 (9 * ci + j))"
    by (rule determ_cong) (use assms(3) in \<open>simp add: same_comp_def\<close>)
  have c: "cofactors (\<lambda>j. cov s3 (9 * ci + j)) x = cofactors (\<lambda>j. cov s2 (9 * ci + j)) x" for x
    by (rule cofactors_cong) (use assms(3) in \<open>simp add: same_comp_def\<close>)
  have a: "sample_mean s0 ci = sample_mean s1 ci" "sample_cov s0 ci = sample_cov s1 ci"
    "sampleCounts s0 = sampleCounts s1" "totalSampleCount s0 = totalSampleCount s1"
    using assms(2) by (simp_all add: same_acc_def sample_mean_def sample_cov_def fun_eq_iff)
  show ?thesis
    using assms(1,3) unfolding fitted_def a d c same_comp_def by auto
qed

lemma endLearning_loop:
  assumes "n \<le> componentsCount" "for_each [0..<n] endLearning_body s = Inr s'"
  shows "same_acc s s' \<and> (\<forall>i<componentsCount. n \<le> i \<longrightarrow> same_comp s s' i)
           \<and> (\<forall>i<n. fitted s s' i)"
  using assms
proof (induction n arbitrary: s')
  case 0
  then show ?case by simp
next
  case (Suc n)
  from Suc.prems(2) obtain s1 where s1: "for_each [0..<n] endLearning_body s = Inr s1"
    and step: "endLearning_body s1 n = Inr s'"
    by (auto simp: for_each_append split: sum.splits)
  have n: "n < componentsCount" using Suc.prems(1) by simp
  have ih: "same_acc s s1" "\<And>i. i < componentsCount \<Longrightarrow> n \<le> i \<Longrightarrow> same_comp s s1 i"
    "\<And>i. i < n \<Longrightarrow> fitted s s1 i"
    using Suc.IH [OF _ s1] n by auto
  note fr = endLearning_body_frame [OF n step]
  have "same_acc s s'" using ih(1) fr(1) by (rule same_acc_trans)
  moreover have "same_comp s s' i" if "i < componentsCount" "Suc n \<le> i" for i
    using ih(2) [of i] fr(2) [of i] that by (auto intro: same_comp_trans)
  moreover have "fitted s s' i" if "i < Suc n" for i
  proof (cases "i = n")
    case True
    show ?thesis
      unfolding True
      by (rule fitted_transfer [OF endLearning_body_fitted [OF n step] ih(1)]) simp
  next
    case False
    then have i: "i < n" using that by simp
    then have "same_comp s1 s' i" using fr(2) [of i] n by simp
    then show ?thesis using fitted_transfer [OF ih(3) [OF i] _ ] by simp
  qed
  ultimately show ?case by blast
qed

text \<open>
  Claim C1. After an \<open>endLearning\<close> that returned, a component that has received no sample
  has weight 0. For a component with \<open>n > 0\<close> samples the total count is positive (the
  assertion would have failed otherwise), the weight is \<open>n\<close> over the total count, each mean
  coordinate is the sum over \<open>n\<close>, and the covariance is computed entry by entry as the
  product sum over \<open>n\<close> minus the product of the two means; the cache is then recomputed
  with the correction 0.01: the stored covariance is that matrix, with 0.01 added to its
  diagonal when its determinant is at most \<open>1e-6\<close>, the cached determinant is the one of the
  stored covariance and exceeds the machine epsilon, and the cached inverse is computed from
  the stored covariance.
\<close>

theorem endLearning_fits:
  assumes "endLearning s = Inr s'" "ci < componentsCount"
  shows "(sampleCounts s ci = 0 \<longrightarrow> coefs s' ci = 0)
     \<and> (0 < sampleCounts s ci \<longrightarrow>
          0 < totalSampleCount s
          \<and> coefs s' ci = real_of_int (sampleCounts s ci) / real_of_int (totalSampleCount s)
          \<and> (\<forall>k<3. mean s' (3 * ci + k) = sums_acc s ci k / real_of_int (sampleCounts s ci))
          \<and> (\<forall>r<3. \<forall>k<3. sample_cov s ci (3 * r + k)
                 = prods s ci r k / real_of_int (sampleCounts s ci)
                     - mean s' (3 * ci + r) * mean s' (3 * ci + k))
          \<and> (\<forall>j<9. cov s' (9 * ci + j)
                 = (if determ (sample_cov s ci) \<le> 1 / 10 ^ 6
                    then sample_cov s ci j + (if j = 0 \<or> j = 4 \<or> j = 8 then 1 / 100 else 0)
                    else sample_cov s ci j))
          \<and> covDeterms s' ci = determ (\<lambda>j. cov s' (9 * ci + j))
          \<and> DBL_EPSILON < covDeterms s' ci
          \<and> inverseCovs s' ci = cofactors (\<lambda>j. cov s' (9 * ci + j)) (1 / covDeterms s' ci))"
proof -
  have f: "fitted s s' ci"
    using endLearning_loop [OF le_refl, of s s'] assms by (simp add: endLearning_def)
  have sc: "sample_cov s ci (3 * r + k)
              = prods s ci r k / real_of_int (sampleCounts s ci)
                  - sample_mean s ci r * sample_mean s ci k" if "r < 3" "k < 3" for r k
    using that by (simp add: sample_cov_def)
  show ?thesis
    using f unfolding fitted_def by (auto simp: sc regularized_def sample_mean_def)
qed

subsection \<open>A whole pass\<close>

text \<open>
  \<open>endLearning\<close> returns when, for every component that has samples, the total count is
  positive and the determinant it computes (after the correction, if there is one) exceeds the
  machine epsilon.
\<close>

lemma endLearning_body_returns:
  assumes "ci < componentsCount"
    "sampleCounts s ci \<noteq> 0 \<Longrightarrow>
       0 < sampleCounts s ci \<and> 0 < totalSampleCount s
       \<and> DBL_EPSILON < determ (if determ (sample_cov s ci) \<le> 1 / 10 ^ 6
                                then regularized (sample_cov s ci) (1 / 100) else sample_cov s ci)"
  shows "\<exists>s'. endLearning_body s ci = Inr s'"
proof (cases "sampleCounts s ci = 0")
  case True
  then show ?thesis by (simp add: endLearning_body_def)
next
  case False
  let ?t = "fit_component s ci"
  let ?c = "\<lambda>j. cov ?t (9 * ci + j)"
  from assms(2) [OF False] have n: "0 < sampleCounts s ci" and t: "0 < totalSampleCount s"
    and big: "DBL_EPSILON < determ (if determ (sample_cov s ci) \<le> 1 / 10 ^ 6
                                then regularized (sample_cov s ci) (1 / 100) else sample_cov s ci)"
    by simp_all
  have "coefs ?t ci = real_of_int (sampleCounts s ci) / real_of_int (totalSampleCount s)"
    using fit_component_views(1) [OF assms(1) assms(1), of s] by simp
  then have active: "0 < coefs ?t ci" using n t by simp
  have d: "determ ?c = determ (sample_cov s ci)"
    by (rule determ_cong) (simp add: fit_cov_sample assms(1))
  have dr: "determ (regularized ?c (1 / 100)) = determ (regularized (sample_cov s ci) (1 / 100))"
    by (rule determ_cong) (simp add: regularized_def fit_cov_sample assms(1))
  have c1: "(\<lambda>j. cov (add_white_noise ?t ci (1 / 100)) (9 * ci + j)) = regularized ?c (1 / 100)"
    by (simp add: views_add_white_noise fun_eq_iff)
  have "\<exists>s'. calcInverseCovAndDeterm ?t ci (1 / 100) = Inr s'"
  proof (cases "determ (sample_cov s ci) \<le> 1 / 10 ^ 6")
    case True
    then have "DBL_EPSILON < determ (regularized ?c (1 / 100))" using big dr by simp
    then show ?thesis
      unfolding calc_eq Let_def using active True d by (simp add: c1)
  next
    case False
    then have "DBL_EPSILON < determ ?c" using big d by simp
    then show ?thesis
      unfolding calc_eq Let_def using active False d by simp
  qed
  then show ?thesis using False t by (simp add: endLearning_body_def)
qed

lemma endLearning_returns:
  assumes "\<And>ci. ci < componentsCount \<Longrightarrow> sampleCounts s ci \<noteq> 0 \<Longrightarrow>
       0 < sampleCounts s ci \<and> 0 < totalSampleCount s
       \<and> DBL_EPSILON < determ (if determ (sample_cov s ci) \<le> 1 / 10 ^ 6
                                then regularized (sample_cov s ci) (1 / 100) else sample_cov s ci)"
  shows "\<exists>s'. endLearning s = Inr s'"
proof -
  have "n \<le> componentsCount \<Longrightarrow> \<exists>s'. for_each [0..<n] endLearning_body s = Inr s'" for n
  proof (induction n)
    case 0
    show ?case by simp
  next
    case (Suc n)
    then obtain s1 where s1: "for_each [0..<n] endLearning_body s = Inr s1" by auto
    have n: "n < componentsCount" using Suc.prems by simp
    have same: "same_acc s s1" using endLearning_loop [OF _ s1] n by simp
    then have eq: "sampleCounts s1 = sampleCounts s" "totalSampleCount s1 = totalSampleCount s"
      "sample_cov s1 n = sample_cov s n"
      by (simp_all add: same_acc_def sample_cov_def sample_mean_def fun_eq_iff)
    obtain s' where "endLearning_body s1 n = Inr s'"
      using endLearning_body_returns [OF n, of s1] assms [OF n] unfolding eq by blast
    then show ?case using s1 by (simp add: for_each_append)
  qed
  then show ?thesis by (simp add: endLearning_def)
qed

lemma two_samples_run: "\<exists>s. addSamples (initLearning raw_gmm) two_samples = Inr s"
  by (simp add: two_samples_def addSample_def initLearning_simps componentsCount_def INT_MAX_def)

lemma two_samples_acc:
  assumes "addSamples (initLearning raw_gmm) two_samples = Inr s" "ci < componentsCount"
  shows "sampleCounts s ci = (if ci = 2 then 2 else 0)" "totalSampleCount s = 2"
    "sums_acc s 2 k = 200" "prods s 2 r k = 20000"
proof -
  let ?v = "Vec3d 100 100 100"
  obtain s1 where s1: "addSample (initLearning raw_gmm) 2 ?v = Inr s1"
    and s: "addSample s1 2 ?v = Inr s"
    using assms(1) by (auto simp: two_samples_def split: sum.splits)
  have v: "vec_at ?v k = 100" for k by simp
  have one: "sampleCounts s1 = (sampleCounts (initLearning raw_gmm))(2 := 1)"
    "totalSampleCount s1 = 1" "sums_acc s1 2 k = 100" "prods s1 2 r k = 10000" for r k
    using s1 by (auto simp: addSample_def initLearning_simps componentsCount_def v
        simp del: vec_at.simps split: if_splits)
  have two: "sampleCounts s = (sampleCounts s1)(2 := sampleCounts s1 2 + 1)"
    "totalSampleCount s = totalSampleCount s1 + 1" "sums_acc s 2 k = sums_acc s1 2 k + 100"
    "prods s 2 r k = prods s1 2 r k + 10000" for r k
    using s by (auto simp: addSample_def v simp del: vec_at.simps split: if_splits)
  show "sampleCounts s ci = (if ci = 2 then 2 else 0)"
    using assms(2) by (simp add: two(1) one(1) initLearning_simps)
  show "totalSampleCount s = 2" "sums_acc s 2 k = 200" "prods s 2 r k = 20000"
    by (simp_all add: two one)
qed

lemma two_samples_cov:
  assumes "addSamples (initLearning raw_gmm) two_samples = Inr s"
  shows "sample_cov s 2 j = 0" "determ (sample_cov s 2) = 0"
proof -
  have c2: "(2::nat) < componentsCount" by (simp add: componentsCount_def)
  note a = two_samples_acc [OF assms c2]
  show sc: "sample_cov s 2 j = 0" for j
    by (simp add: sample_cov_def sample_mean_def a)
  show "determ (sample_cov s 2) = 0" by (simp add: determ_def sc)
qed

lemma two_samples_end:
  assumes "addSamples (initLearning raw_gmm) two_samples = Inr s"
  shows "\<exists>s'. endLearning s = Inr s'"
proof (rule endLearning_returns)
  fix ci assume ci: "ci < componentsCount" and n: "sampleCounts s ci \<noteq> 0"
  note a = two_samples_acc [OF assms ci]
  have ci2: "ci = 2" using n a(1) by (simp split: if_splits)
  have "determ (regularized (sample_cov s 2) (1 / 100)) = 1 / 10 ^ 6"
    by (simp add: determ_def regularized_def two_samples_cov [OF assms])
  then have "DBL_EPSILON < determ (regularized (sample_cov s 2) (1 / 100))"
    by (simp add: DBL_EPSILON_def)
  then show "0 < sampleCounts s ci \<and> 0 < totalSampleCount s
       \<and> DBL_EPSILON < determ (if determ (sample_cov s ci) \<le> 1 / 10 ^ 6
                                then regularized (sample_cov s ci) (1 / 100) else sample_cov s ci)"
    using a(1,2) by (simp add: ci2 two_samples_cov [OF assms])
qed

text \<open>
  Two samples of the colour \<open>(100, 100, 100)\<close> for component 2: weight 1, mean
  \<open>(100, 100, 100)\<close>, a covariance that is zero before the correction and has 0.01 on its
  diagonal after it; the components without samples have weight 0.
\<close>

theorem endLearning_fits_witness:
  "\<exists>s s'. addSamples (initLearning raw_gmm) two_samples = Inr s \<and> endLearning s = Inr s'
      \<and> coefs s' 0 = 0 \<and> coefs s' 2 = 1
      \<and> mean s' 6 = 100 \<and> mean s' 7 = 100 \<and> mean s' 8 = 100
      \<and> cov s' 18 = 1 / 100 \<and> cov s' 19 = 0 \<and> cov s' 22 = 1 / 100 \<and> cov s' 26 = 1 / 100
      \<and> covDeterms s' 2 = 1 / 10 ^ 6"
proof -
  obtain s where s: "addSamples (initLearning raw_gmm) two_samples = Inr s"
    using two_samples_run by blast
  obtain s' where s': "endLearning s = Inr s'" using two_samples_end [OF s] by blast
  have c0: "(0::nat) < componentsCount" and c2: "(2::nat) < componentsCount"
    by (simp_all add: componentsCount_def)
  note a0 = two_samples_acc [OF s c0] and a = two_samples_acc [OF s c2]
  note sc = two_samples_cov [OF s]
  have f0: "coefs s' 0 = 0" using endLearning_fits [OF s' c0] a0 by simp
  have f2: "coefs s' 2 = 1" "\<forall>k<3. mean s' (3 * 2 + k) = 100"
    "\<forall>j<9. cov s' (9 * 2 + j) = (if j = 0 \<or> j = 4 \<or> j = 8 then 1 / 100 else 0)"
    "covDeterms s' 2 = determ (\<lambda>j. cov s' (9 * 2 + j))"
    using endLearning_fits [OF s' c2] by (simp_all add: a sc)
  have m: "mean s' 6 = 100" "mean s' 7 = 100" "mean s' 8 = 100"
    using f2(2) [rule_format, of 0] f2(2) [rule_format, of 1] f2(2) [rule_format, of 2] by simp_all
  have c: "cov s' (18 + j) = (if j = 0 \<or> j = 4 \<or> j = 8 then 1 / 100 else 0)" if "j < 9" for j
    using f2(3) that by simp
  have cv: "cov s' 18 = 1 / 100" "cov s' 19 = 0" "cov s' 22 = 1 / 100" "cov s' 26 = 1 / 100"
    "cov s' 20 = 0" "cov s' 21 = 0" "cov s' 23 = 0" "cov s' 24 = 0" "cov s' 25 = 0"
    using c [of 0] c [of 1] c [of 4] c [of 8] c [of 2] c [of 3] c [of 5] c [of 6] c [of 7]
    by simp_all
  have "covDeterms s' 2 = 1 / 10 ^ 6"
    using f2(4) by (simp add: determ_def cv)
  then show ?thesis using s s' f0 f2(1) m cv by blast
qed

text \<open>
  Claim C2. After \<open>initLearning\<close>, at least one \<open>addSample\<close> and an \<open>endLearning\<close> that
  has returned, the weights of the components that have received samples add up to 1.
\<close>

theorem weights_sum_to_one:
  assumes "addSamples (initLearning s0) xs = Inr s" "xs \<noteq> []" "endLearning s = Inr s'"
  shows "(\<Sum>i | i < componentsCount \<and> 0 < sampleCounts s i. coefs s' i) = 1"
proof -
  have inv: "acc_inv s" and tot: "totalSampleCount s = int (length xs)"
    using acc_inv_addSamples [OF acc_inv_init assms(1)] by (simp_all add: initLearning_simps)
  have t: "0 < totalSampleCount s" using tot assms(2) by simp
  have fit: "fitted s s' i" if "i < componentsCount" for i
    using endLearning_loop [OF le_refl, of s s'] assms(3) that by (simp add: endLearning_def)
  have w: "coefs s' i = real_of_int (sampleCounts s i) / real_of_int (totalSampleCount s)"
    if "i < componentsCount" for i
  proof -
    have "0 \<le> sampleCounts s i" using inv that by (simp add: acc_inv_def)
    then show ?thesis using fit [OF that] by (auto simp: fitted_def le_less)
  qed
  have "(\<Sum>i | i < componentsCount \<and> 0 < sampleCounts s i. coefs s' i)
          = (\<Sum>i | i < componentsCount \<and> 0 < sampleCounts s i.
               real_of_int (sampleCounts s i) / real_of_int (totalSampleCount s))"
    by (rule sum.cong) (simp_all add: w)
  also have "\<dots> = (\<Sum>i<componentsCount.
               real_of_int (sampleCounts s i) / real_of_int (totalSampleCount s))"
  proof (rule sum.mono_neutral_left)
    show "\<forall>i\<in>{..<componentsCount} - {i. i < componentsCount \<and> 0 < sampleCounts s i}.
            real_of_int (sampleCounts s i) / real_of_int (totalSampleCount s) = 0"
      using inv by (auto simp: acc_inv_def not_less)
  qed auto
  also have "\<dots> = real_of_int (\<Sum>i<componentsCount. sampleCounts s i) / real_of_int (totalSampleCount s)"
    by (simp add: sum_divide_distrib)
  also have "\<dots> = real_of_int (totalSampleCount s) / real_of_int (totalSampleCount s)"
    using inv unfolding acc_inv_def by (simp only:)
  also have "\<dots> = 1" using t by simp
  finally show ?thesis .
qed

theorem weights_sum_to_one_witness:
  "\<exists>s s'. addSamples (initLearning raw_gmm) two_samples = Inr s \<and> endLearning s = Inr s'
      \<and> (\<Sum>i | i < componentsCount \<and> 0 < sampleCounts s i. coefs s' i) = 1"
proof -
  obtain s where s: "addSamples (initLearning raw_gmm) two_samples = Inr s"
    using two_samples_run by blast
  obtain s' where s': "endLearning s = Inr s'" using two_samples_end [OF s] by blast
  have "two_samples \<noteq> []" by (simp add: two_samples_def)
  from weights_sum_to_one [OF s this s'] s s' show ?thesis by blast
qed

end
